theory Spec2Isabelle
  imports Complex_Main
begin

section \<open>Values shared by the metrics and the decoding backend\<close>

text \<open>
  Exceptions of the Python source are values of \<open>error\<close>; a function that can raise
  returns \<open>error + 'a\<close> with \<open>Inl\<close> for the exception.
\<close>

datatype error = ZeroDivisionError | AttributeError | IndexError | RuntimeError | ShapeError

text \<open>
  A floating-point value is either a finite number, held as a real, or one of the three
  non-finite values. The reports of the counting metrics are quotients of two counts;
  the divergence is modelled twice, in exact arithmetic and with every operation rounded
  to the format of the tensors.
\<close>

datatype fl = Fin real | PosInf | NegInf | NaN

text \<open>
  The running numerator and denominator of \<open>Accuracy\<close> start as the Python integer
  \<open>0\<close> and become 0-dimensional integer tensors with the first \<open>+=\<close> of a tensor.
\<close>

datatype num = PyInt int | Tensor int

fun num_value :: "num \<Rightarrow> int" where
  "num_value (PyInt a) = a"
| "num_value (Tensor a) = a"

text \<open>\<open>x += t\<close> for a tensor \<open>t\<close>: the result is a tensor whatever \<open>x\<close> was.\<close>

definition iadd_tensor :: "num \<Rightarrow> int \<Rightarrow> num" where
  "iadd_tensor x t = Tensor (num_value x + t)"

text \<open>
  \<open>a / b\<close> on integer tensors is true division into a float tensor: a zero divisor
  gives \<open>nan\<close> or an infinity.
\<close>

definition tensor_div :: "int \<Rightarrow> int \<Rightarrow> fl" where
  "tensor_div a b =
     (if b \<noteq> 0 then Fin (real_of_int a / real_of_int b)
      else if a = 0 then NaN
      else if 0 < a then PosInf
      else NegInf)"

datatype quotient = PyFloat fl | FloatTensor fl

text \<open>
  \<open>a / b\<close>: two Python integers divide as Python does (a zero divisor raises); as soon
  as one operand is a tensor the division is the tensor's.
\<close>

fun truediv :: "num \<Rightarrow> num \<Rightarrow> error + quotient" where
  "truediv (PyInt a) (PyInt b) =
     (if b = 0 then Inl ZeroDivisionError
      else Inr (PyFloat (Fin (real_of_int a / real_of_int b))))"
| "truediv a b = Inr (FloatTensor (tensor_div (num_value a) (num_value b)))"

text \<open>\<open>.cpu()\<close> exists on tensors only.\<close>

fun cpu :: "quotient \<Rightarrow> error + quotient" where
  "cpu (PyFloat v) = Inl AttributeError"
| "cpu (FloatTensor v) = Inr (FloatTensor v)"

fun float :: "quotient \<Rightarrow> fl" where
  "float (PyFloat v) = v"
| "float (FloatTensor v) = v"

subsection \<open>Tensors\<close>

text \<open>
  A batch of predicted logits is \<open>[N, C]\<close> (\<open>L2 C rows\<close>) or \<open>[B, C, T]\<close>
  (\<open>L3 C T seqs\<close>, each sequence a list of \<open>C\<close> channels of \<open>T\<close> values). The sizes
  that nested lists cannot hold when a dimension is empty are kept beside the data.
  An integer tensor (targets, predicted indices) is \<open>[N]\<close> or \<open>[B, T]\<close>.
\<close>

datatype ltensor = L2 nat "real list list" | L3 nat nat "real list list list"

datatype itensor = I1 "int list" | I2 "int list list"

fun wf_ltensor :: "ltensor \<Rightarrow> bool" where
  "wf_ltensor (L2 C rows) = (\<forall>r \<in> set rows. length r = C)"
| "wf_ltensor (L3 C T seqs) =
     (\<forall>s \<in> set seqs. length s = C \<and> (\<forall>ch \<in> set s. length ch = T))"

fun elems :: "itensor \<Rightarrow> int list" where
  "elems (I1 xs) = xs"
| "elems (I2 xss) = concat xss"

fun same_shape :: "itensor \<Rightarrow> itensor \<Rightarrow> bool" where
  "same_shape (I1 xs) (I1 ys) = (length xs = length ys)"
| "same_shape (I2 xss) (I2 yss) = (map length xss = map length yss)"
| "same_shape _ _ = False"

text \<open>The values of all channels at one timestep.\<close>

definition column :: "'a list list \<Rightarrow> nat \<Rightarrow> 'a list" where
  "column seq t = map (\<lambda>ch. ch ! t) seq"

text \<open>
  \<open>argmax\<close> returns the index of the first maximal value. The scan keeps the best
  index and value seen so far; a later value replaces it only when strictly greater.
\<close>

fun argmax_aux :: "nat \<Rightarrow> real \<Rightarrow> nat \<Rightarrow> real list \<Rightarrow> nat" where
  "argmax_aux best bv i [] = best"
| "argmax_aux best bv i (x # xs) =
     (if bv < x then argmax_aux i x (Suc i) xs else argmax_aux best bv (Suc i) xs)"

text \<open>The empty list is excluded by the callers, which raise on an empty class dimension.\<close>

definition argmax :: "real list \<Rightarrow> nat" where
  "argmax xs = (case xs of [] \<Rightarrow> 0 | x # ys \<Rightarrow> argmax_aux 0 x 1 ys)"

text \<open>
  \<open>t.argmax(dim=1)\<close>: over the class dimension, for every row, or for every sequence
  and timestep. A class dimension of size zero raises.
\<close>

fun argmax_dim1 :: "ltensor \<Rightarrow> error + itensor" where
  "argmax_dim1 (L2 C rows) =
     (if C = 0 then Inl IndexError
      else Inr (I1 (map (\<lambda>r. int (argmax r)) rows)))"
| "argmax_dim1 (L3 C T seqs) =
     (if C = 0 then Inl IndexError
      else Inr (I2 (map (\<lambda>s. map (\<lambda>t. int (argmax (column s t))) [0..<T]) seqs)))"

text \<open>\<open>b.sum()\<close> of a boolean tensor counts its true entries.\<close>

definition bool_sum :: "bool list \<Rightarrow> int" where
  "bool_sum bs = int (length (filter (\<lambda>b. b) bs))"

section \<open>Accuracy\<close>

record Accuracy =
  acc_display_suffix :: string
  acc_count :: num
  acc_true_positives :: num

definition Accuracy_reset :: "Accuracy \<Rightarrow> Accuracy" where
  "Accuracy_reset self = self\<lparr>acc_count := PyInt 0, acc_true_positives := PyInt 0\<rparr>"

definition Accuracy_init :: "string \<Rightarrow> Accuracy" where
  "Accuracy_init display_suffix =
     Accuracy_reset \<lparr>acc_display_suffix = display_suffix,
       acc_count = PyInt 0, acc_true_positives = PyInt 0\<rparr>"

text \<open>
  The report is a dictionary with one key. Shapes that differ make \<open>==\<close> either
  broadcast or raise in the tensor library; the data model has the target's shape equal
  to the prediction's without the class dimension, and the model answers \<open>ShapeError\<close>
  for every other pair.
\<close>

definition Accuracy_call :: "Accuracy \<Rightarrow> error + (string \<times> fl) list" where
  "Accuracy_call self =
     (case truediv (acc_true_positives self) (acc_count self) of
        Inl e \<Rightarrow> Inl e
      | Inr q \<Rightarrow>
          (case cpu q of
             Inl e \<Rightarrow> Inl e
           | Inr c \<Rightarrow> Inr [(''Accuracy/'' @ acc_display_suffix self, float c)]))"

definition Accuracy_update :: "Accuracy \<Rightarrow> ltensor \<Rightarrow> itensor \<Rightarrow> error + Accuracy" where
  "Accuracy_update self predicted_logits target_indices =
     (case argmax_dim1 predicted_logits of
        Inl e \<Rightarrow> Inl e
      | Inr predicted_indices \<Rightarrow>
          if \<not> same_shape predicted_indices target_indices then Inl ShapeError
          else
            let hits = map2 (\<lambda>p t. p = t \<and> t \<noteq> - 100)
                         (elems predicted_indices) (elems target_indices);
                kept = map (\<lambda>t. t \<noteq> - 100) (elems target_indices)
            in Inr (self\<lparr>acc_true_positives := iadd_tensor (acc_true_positives self) (bool_sum hits),
                          acc_count := iadd_tensor (acc_count self) (bool_sum kept)\<rparr>))"

text \<open>A stream of batches, fed in order; the first exception ends the run.\<close>

fun Accuracy_updates :: "Accuracy \<Rightarrow> (ltensor \<times> itensor) list \<Rightarrow> error + Accuracy" where
  "Accuracy_updates self [] = Inr self"
| "Accuracy_updates self ((p, t) # bs) =
     (case Accuracy_update self p t of
        Inl e \<Rightarrow> Inl e
      | Inr self' \<Rightarrow> Accuracy_updates self' bs)"

section \<open>TopKAccuracy\<close>

record TopKAccuracy =
  topk_display_suffix :: string
  topk_k :: nat
  topk_count :: int
  correct_in_top_k :: int

definition TopKAccuracy_reset :: "TopKAccuracy \<Rightarrow> TopKAccuracy" where
  "TopKAccuracy_reset self = self\<lparr>topk_count := 0, correct_in_top_k := 0\<rparr>"

definition TopKAccuracy_init :: "string \<Rightarrow> nat \<Rightarrow> TopKAccuracy" where
  "TopKAccuracy_init display_suffix k =
     TopKAccuracy_reset \<lparr>topk_display_suffix = display_suffix, topk_k = k,
       topk_count = 0, correct_in_top_k = 0\<rparr>"

text \<open>Decimal digits of \<open>k\<close>, as the f-string of the report key prints them.\<close>

fun string_of_nat :: "nat \<Rightarrow> string" where
  "string_of_nat n =
     (if n < 10 then [''0123456789'' ! n]
      else string_of_nat (n div 10) @ [''0123456789'' ! (n mod 10)])"

text \<open>Both operands are Python integers here: a zero count raises.\<close>

definition TopKAccuracy_call :: "TopKAccuracy \<Rightarrow> error + (string \<times> fl) list" where
  "TopKAccuracy_call self =
     (if topk_count self = 0 then Inl ZeroDivisionError
      else Inr [(''Top'' @ string_of_nat (topk_k self) @ ''Accuracy/'' @ topk_display_suffix self,
                 Fin (real_of_int (correct_in_top_k self) / real_of_int (topk_count self)))])"

text \<open>
  \<open>torch.topk(row, k).indices\<close> is the tensor library's. What the library promises of
  it: \<open>k\<close> distinct indices of the row, larger values first, and no value left out
  larger than a value returned. Which of several equal values it returns, and in which
  order, it leaves open (on \<open>[1, 5, 5, 5]\<close> with \<open>k = 2\<close> it may answer \<open>[2, 3]\<close>). The
  model takes the function as a parameter \<open>topk\<close> and asks that contract of it.
\<close>

definition is_topk :: "nat \<Rightarrow> real list \<Rightarrow> nat list \<Rightarrow> bool" where
  "is_topk k row indices =
     (length indices = k \<and> distinct indices
      \<and> (\<forall>i \<in> set indices. i < length row)
      \<and> sorted (map (\<lambda>i. - (row ! i)) indices)
      \<and> (\<forall>i \<in> set indices. \<forall>j \<in> set [0..<length row]. j \<notin> set indices \<longrightarrow> row ! j \<le> row ! i))"

definition topk_contract :: "(nat \<Rightarrow> real list \<Rightarrow> nat list) \<Rightarrow> bool" where
  "topk_contract topk = (\<forall>k row. k \<le> length row \<longrightarrow> is_topk k row (topk k row))"

text \<open>One function that meets the contract: among equal values the lower index comes first.\<close>

definition topk_lowest_first :: "nat \<Rightarrow> real list \<Rightarrow> nat list" where
  "topk_lowest_first k row = take k (sort_key (\<lambda>i. - (row ! i)) [0..<length row])"

text \<open>
  \<open>target in indices\<close> is \<open>(indices == target).any()\<close>. For a \<open>[B, C, T]\<close> batch the
  indices of one sequence are \<open>[k, T]\<close> and its targets \<open>[T]\<close>, compared timestep by
  timestep (the model keeps the indices of a sequence as one list per timestep).
\<close>

definition contains_index :: "nat list \<Rightarrow> int \<Rightarrow> bool" where
  "contains_index indices target = (\<exists>j \<in> set indices. int j = target)"

definition contains_seq :: "nat list list \<Rightarrow> int list \<Rightarrow> bool" where
  "contains_seq indices targets =
     (\<exists>t \<in> set [0..<length targets]. contains_index (indices ! t) (targets ! t))"

text \<open>
  The loop over \<open>range(0, len(target_indices))\<close>, with the state passed along:
  \<open>hit i\<close> is the membership test at position \<open>i\<close>, \<open>n\<close> the number of rows of the
  index tensor (reading beyond it raises).
\<close>

fun topk_loop :: "(nat \<Rightarrow> error + bool) \<Rightarrow> nat list \<Rightarrow> TopKAccuracy \<Rightarrow> error + TopKAccuracy" where
  "topk_loop hit [] self = Inr self"
| "topk_loop hit (i # is) self =
     (case hit i of
        Inl e \<Rightarrow> Inl e
      | Inr b \<Rightarrow>
          topk_loop hit is
            (self\<lparr>correct_in_top_k := (if b then correct_in_top_k self + 1 else correct_in_top_k self),
                  topk_count := topk_count self + 1\<rparr>))"

fun TopKAccuracy_update ::
  "(nat \<Rightarrow> real list \<Rightarrow> nat list) \<Rightarrow> TopKAccuracy \<Rightarrow> ltensor \<Rightarrow> itensor \<Rightarrow> error + TopKAccuracy" where
  "TopKAccuracy_update topk self (L2 C rows) (I1 targets) =
     (if C < topk_k self then Inl RuntimeError
      else
        let top_k_indices = map (topk (topk_k self)) rows
        in topk_loop
             (\<lambda>i. if i < length top_k_indices
                   then Inr (contains_index (top_k_indices ! i) (targets ! i))
                   else Inl IndexError)
             [0..<length targets] self)"
| "TopKAccuracy_update topk self (L3 C T seqs) (I2 targets) =
     (if C < topk_k self then Inl RuntimeError
      else
        let top_k_indices =
              map (\<lambda>s. map (\<lambda>t. topk (topk_k self) (column s t)) [0..<T]) seqs
        in topk_loop
             (\<lambda>i. if length top_k_indices \<le> i then Inl IndexError
                   else if length (targets ! i) \<noteq> T then Inl ShapeError
                   else Inr (contains_seq (top_k_indices ! i) (targets ! i)))
             [0..<length targets] self)"
| "TopKAccuracy_update topk self _ _ = Inl ShapeError"

text \<open>\<open>torch.special.logit\<close>, which the source's own example applies to its probabilities.\<close>

definition logit :: "real \<Rightarrow> real" where
  "logit x = ln (x / (1 - x))"

section \<open>CategoricalAccuracy\<close>

record CategoricalAccuracy =
  cat_display_suffix :: string
  totals :: "int list option"
  counts :: "int list option"

definition CategoricalAccuracy_reset :: "CategoricalAccuracy \<Rightarrow> CategoricalAccuracy" where
  "CategoricalAccuracy_reset self = self\<lparr>totals := None, counts := None\<rparr>"

definition CategoricalAccuracy_init :: "string \<Rightarrow> CategoricalAccuracy" where
  "CategoricalAccuracy_init display_suffix =
     CategoricalAccuracy_reset \<lparr>cat_display_suffix = display_suffix, totals = None, counts = None\<rparr>"

text \<open>
  \<open>transpose(1, 2)\<close> then \<open>flatten(0, 1)\<close> turn \<open>[B, C, T]\<close> into \<open>[B * T, C]\<close>: one row
  per sequence and timestep; \<open>flatten\<close> lists the targets in the same order.
\<close>

fun unroll_time :: "ltensor \<Rightarrow> itensor \<Rightarrow> ltensor \<times> itensor" where
  "unroll_time (L3 C T seqs) target_indices =
     (L2 C (concat (map (\<lambda>s. map (column s) [0..<T]) seqs)), I1 (elems target_indices))"
| "unroll_time (L2 C rows) target_indices = (L2 C rows, target_indices)"

text \<open>
  \<open>one_hot(indices, num_classes)\<close> raises on a negative index and on one that is not
  smaller than \<open>num_classes\<close>.
\<close>

definition one_hot_row :: "nat \<Rightarrow> int \<Rightarrow> int list" where
  "one_hot_row num_classes i = map (\<lambda>j. if int j = i then 1 else 0) [0..<num_classes]"

definition one_hot :: "int list \<Rightarrow> nat \<Rightarrow> error + int list list" where
  "one_hot indices num_classes =
     (if \<exists>i \<in> set indices. i < 0 \<or> int num_classes \<le> i then Inl RuntimeError
      else Inr (map (one_hot_row num_classes) indices))"

definition mul2 :: "int list list \<Rightarrow> int list list \<Rightarrow> int list list" where
  "mul2 a b = map2 (map2 (*)) a b"

text \<open>\<open>m.sum(dim=0)\<close> of a matrix with \<open>C\<close> columns (which may have no row).\<close>

definition sum_dim0 :: "nat \<Rightarrow> int list list \<Rightarrow> int list" where
  "sum_dim0 C m = map (\<lambda>c. sum_list (map (\<lambda>r. r ! c) m)) [0..<C]"

text \<open>
  \<open>acc += marginal\<close> in place on a vector: equal lengths add pointwise, a marginal of
  length one is broadcast to every entry, anything else raises.
\<close>

definition iadd_vec :: "int list option \<Rightarrow> int list \<Rightarrow> error + int list" where
  "iadd_vec acc marginal =
     (case acc of
        None \<Rightarrow> Inr marginal
      | Some a \<Rightarrow>
          if length marginal = length a then Inr (map2 (+) a marginal)
          else if length marginal = 1 then Inr (map (\<lambda>x. x + marginal ! 0) a)
          else Inl RuntimeError)"

text \<open>
  Boolean-mask indexing needs a mask as long as the tensor's first dimension; a mask of
  another rank is outside the data model and answered with \<open>ShapeError\<close>.
\<close>

definition CategoricalAccuracy_update ::
  "CategoricalAccuracy \<Rightarrow> ltensor \<Rightarrow> itensor \<Rightarrow> error + CategoricalAccuracy" where
  "CategoricalAccuracy_update self predicted_logits target_indices =
     (case unroll_time predicted_logits target_indices of
        (L2 C rows, I1 targets) \<Rightarrow>
          if length rows \<noteq> length targets then Inl IndexError
          else
            let kept = filter (\<lambda>(r, t). t \<noteq> - 100) (zip rows targets);
                target_indices' = map snd kept;
                predicted_logits' = L2 C (map fst kept)
            in (case argmax_dim1 predicted_logits' of
                  Inl e \<Rightarrow> Inl e
                | Inr predicted_indices \<Rightarrow>
                    (case one_hot (elems predicted_indices) C of
                       Inl e \<Rightarrow> Inl e
                     | Inr predicted_onehots \<Rightarrow>
                         (case one_hot target_indices' C of
                            Inl e \<Rightarrow> Inl e
                          | Inr target_onehots \<Rightarrow>
                              (case iadd_vec (totals self)
                                      (sum_dim0 C (mul2 predicted_onehots target_onehots)) of
                                 Inl e \<Rightarrow> Inl e
                               | Inr totals' \<Rightarrow>
                                   (case iadd_vec (counts self) (sum_dim0 C target_onehots) of
                                      Inl e \<Rightarrow> Inl e
                                    | Inr counts' \<Rightarrow>
                                        Inr (self\<lparr>totals := Some totals',
                                                   counts := Some counts'\<rparr>))))))
      | _ \<Rightarrow> Inl ShapeError)"

fun CategoricalAccuracy_updates ::
  "CategoricalAccuracy \<Rightarrow> (ltensor \<times> itensor) list \<Rightarrow> error + CategoricalAccuracy" where
  "CategoricalAccuracy_updates self [] = Inr self"
| "CategoricalAccuracy_updates self ((p, t) # bs) =
     (case CategoricalAccuracy_update self p t of
        Inl e \<Rightarrow> Inl e
      | Inr self' \<Rightarrow> CategoricalAccuracy_updates self' bs)"

section \<open>What the claims about the accumulators count\<close>

text \<open>
  The rows a batch scores, one per target: the rows of an \<open>[N, C]\<close> batch, the
  timesteps of every sequence of a \<open>[B, C, T]\<close> batch.
\<close>

fun frames :: "ltensor \<Rightarrow> real list list" where
  "frames (L2 C rows) = rows"
| "frames (L3 C T seqs) = concat (map (\<lambda>s. map (column s) [0..<T]) seqs)"

text \<open>The target's shape is the prediction's without the (non-empty) class dimension.\<close>

fun shape_ok :: "ltensor \<Rightarrow> itensor \<Rightarrow> bool" where
  "shape_ok (L2 C rows) (I1 targets) = (0 < C \<and> length rows = length targets)"
| "shape_ok (L3 C T seqs) (I2 targets) =
     (0 < C \<and> length seqs = length targets \<and> (\<forall>ts \<in> set targets. length ts = T))"
| "shape_ok _ _ = False"

text \<open>Rows whose arg-max class is the target, the target not being the ignore sentinel.\<close>

definition correct_rows :: "ltensor \<Rightarrow> itensor \<Rightarrow> int" where
  "correct_rows p t =
     int (length (filter (\<lambda>(row, tg). int (argmax row) = tg \<and> tg \<noteq> - 100)
                    (zip (frames p) (elems t))))"

text \<open>Rows whose target is not the ignore sentinel.\<close>

definition kept_rows :: "itensor \<Rightarrow> int" where
  "kept_rows t = int (length (filter (\<lambda>tg. tg \<noteq> - 100) (elems t)))"

text \<open>
  For the top-k metric: the rows whose target is among the row's top-k indices, and, to
  say which classes those must be, the number of other classes of a row that score at
  least as high as class \<open>j\<close> and the number that score strictly higher.
\<close>

definition top_k_rows :: "(nat \<Rightarrow> real list \<Rightarrow> nat list) \<Rightarrow> nat \<Rightarrow> ltensor \<Rightarrow> itensor \<Rightarrow> int" where
  "top_k_rows topk k p t =
     int (length (filter (\<lambda>(row, tg). contains_index (topk k row) tg)
                    (zip (frames p) (elems t))))"

definition rivals :: "real list \<Rightarrow> nat \<Rightarrow> nat" where
  "rivals row j = length (filter (\<lambda>i. i \<noteq> j \<and> row ! j \<le> row ! i) [0..<length row])"

definition higher :: "real list \<Rightarrow> nat \<Rightarrow> nat" where
  "higher row j = length (filter (\<lambda>i. row ! j < row ! i) [0..<length row])"

text \<open>
  A batch of the data model with \<open>C\<close> classes: a well-formed tensor of logits, targets
  of the matching shape, each a class index below \<open>C\<close> or the ignore sentinel.
\<close>

fun classes :: "ltensor \<Rightarrow> nat" where
  "classes (L2 C rows) = C"
| "classes (L3 C T seqs) = C"

definition valid_batch :: "nat \<Rightarrow> ltensor \<Rightarrow> itensor \<Rightarrow> bool" where
  "valid_batch C p t =
     (classes p = C \<and> wf_ltensor p \<and> shape_ok p t
      \<and> (\<forall>tg \<in> set (elems t). tg = - 100 \<or> (0 \<le> tg \<and> tg < int C)))"

section \<open>Jensen-Shannon divergence\<close>

text \<open>
  The tensor library's pointwise operations on finite inputs, with the non-finite
  results they can produce: \<open>log\<close> of zero is \<open>-inf\<close> and of a negative number \<open>nan\<close>;
  \<open>xlogy(x, y)\<close> is \<open>0\<close> at \<open>x = 0\<close> and \<open>x * log(y)\<close> elsewhere; a finite factor times
  an infinity keeps or flips the sign, and zero times an infinity is \<open>nan\<close>.
\<close>

definition torch_log :: "real \<Rightarrow> fl" where
  "torch_log x = (if 0 < x then Fin (ln x) else if x = 0 then NegInf else NaN)"

fun fl_scale :: "real \<Rightarrow> fl \<Rightarrow> fl" where
  "fl_scale t (Fin r) = Fin (t * r)"
| "fl_scale t PosInf = (if 0 < t then PosInf else if t < 0 then NegInf else NaN)"
| "fl_scale t NegInf = (if 0 < t then NegInf else if t < 0 then PosInf else NaN)"
| "fl_scale t NaN = NaN"

definition xlogy :: "real \<Rightarrow> real \<Rightarrow> fl" where
  "xlogy x y = (if x = 0 then Fin 0 else fl_scale x (torch_log y))"

fun fl_add :: "fl \<Rightarrow> fl \<Rightarrow> fl" where
  "fl_add (Fin a) (Fin b) = Fin (a + b)"
| "fl_add NaN _ = NaN"
| "fl_add _ NaN = NaN"
| "fl_add PosInf NegInf = NaN"
| "fl_add NegInf PosInf = NaN"
| "fl_add PosInf _ = PosInf"
| "fl_add _ PosInf = PosInf"
| "fl_add NegInf _ = NegInf"
| "fl_add _ NegInf = NegInf"

fun fl_neg :: "fl \<Rightarrow> fl" where
  "fl_neg (Fin a) = Fin (- a)"
| "fl_neg PosInf = NegInf"
| "fl_neg NegInf = PosInf"
| "fl_neg NaN = NaN"

definition fl_sub :: "fl \<Rightarrow> fl \<Rightarrow> fl" where
  "fl_sub a b = fl_add a (fl_neg b)"

text \<open>
  \<open>nan_to_num\<close> with its defaults: \<open>nan\<close> becomes \<open>0\<close>, an infinity the greatest
  finite value of the dtype with its sign (\<open>float32\<close>, the library's default).
\<close>

definition FLOAT_MAX :: real where
  "FLOAT_MAX = (2 - 1 / 2 ^ 23) * 2 ^ 127"

fun nan_to_num :: "fl \<Rightarrow> real" where
  "nan_to_num (Fin r) = r"
| "nan_to_num NaN = 0"
| "nan_to_num PosInf = FLOAT_MAX"
| "nan_to_num NegInf = - FLOAT_MAX"

text \<open>
  \<open>kl_div(input, target, reduction="none")\<close>, pointwise. With probabilities as target
  it is \<open>xlogy(target, target) - target * input\<close>; with \<open>log_target=True\<close> it is
  \<open>exp(target) * (target - input)\<close>.
\<close>

definition kl_div :: "fl \<Rightarrow> real \<Rightarrow> fl" where
  "kl_div input target = fl_sub (xlogy target target) (fl_scale target input)"

definition kl_div_log_target :: "real \<Rightarrow> real \<Rightarrow> fl" where
  "kl_div_log_target input target = Fin (exp target * (target - input))"

text \<open>\<open>sqrt\<close> of a negative number is \<open>nan\<close>; a sum with a \<open>nan\<close> in it is \<open>nan\<close>.\<close>

definition torch_sqrt :: "real \<Rightarrow> fl" where
  "torch_sqrt x = (if x < 0 then NaN else Fin (sqrt x))"

definition fl_sum :: "fl list \<Rightarrow> fl" where
  "fl_sum xs = foldr fl_add xs (Fin 0)"

text \<open>
  The function on one row of \<open>p_tensor\<close> and \<open>q_tensor\<close>: the mean \<open>m_tensor\<close> of the
  two inputs as they are given, the two pointwise divergences with their \<open>nan\<close>
  entries removed and summed over the classes, and the square root of their mean. This
  is the function in exact arithmetic: what its formula computes when no operation
  rounds. The function on \<open>float32\<close> tensors follows below as \<open>jsd_row_rounded\<close>.
\<close>

definition jsd_row :: "bool \<Rightarrow> real list \<Rightarrow> real list \<Rightarrow> fl" where
  "jsd_row as_logits p q =
     (let m = map2 (\<lambda>a b. (a + b) / 2) p q;
          kl_pm = (if \<not> as_logits
                   then sum_list (map2 (\<lambda>mi pi. nan_to_num (kl_div (torch_log mi) pi)) m p)
                   else sum_list (map2 (\<lambda>mi pi. nan_to_num (kl_div_log_target mi pi)) m p));
          kl_qm = (if \<not> as_logits
                   then sum_list (map2 (\<lambda>mi qi. nan_to_num (kl_div (torch_log mi) qi)) m q)
                   else sum_list (map2 (\<lambda>mi qi. nan_to_num (kl_div_log_target mi qi)) m q))
      in torch_sqrt ((kl_pm + kl_qm) / 2))"

text \<open>
  The arguments are one distribution each (\<open>D1\<close>, where the final \<open>sum(dim=0)\<close> of a
  scalar is the scalar) or a batch of rows (\<open>D2\<close>, where it adds the rows up). Two
  arguments of different shapes broadcast or raise in the library; the model answers
  \<open>ShapeError\<close> for them.
\<close>

datatype dtensor = D1 "real list" | D2 "real list list"

fun jensenShannonDivergence :: "dtensor \<Rightarrow> dtensor \<Rightarrow> bool \<Rightarrow> error + fl" where
  "jensenShannonDivergence (D1 p) (D1 q) as_logits =
     (if length p = length q then Inr (jsd_row as_logits p q) else Inl ShapeError)"
| "jensenShannonDivergence (D2 ps) (D2 qs) as_logits =
     (if map length ps = map length qs then Inr (fl_sum (map2 (jsd_row as_logits) ps qs))
      else Inl ShapeError)"
| "jensenShannonDivergence _ _ as_logits = Inl ShapeError"

text \<open>
  What the specification asks of the log-space mode, in its own words: the mixture is
  the mean of the two distributions in probability space, the inputs being
  exponentiated first, and the value is the square root of the mean of the two
  Kullback-Leibler divergences to that mixture.
\<close>

definition kl_divergence :: "real list \<Rightarrow> real list \<Rightarrow> real" where
  "kl_divergence p m = sum_list (map2 (\<lambda>pi mi. pi * (ln pi - ln mi)) p m)"

definition jsd_probability_space :: "real list \<Rightarrow> real list \<Rightarrow> real" where
  "jsd_probability_space log_p log_q =
     (let p = map exp log_p; q = map exp log_q;
          m = map2 (\<lambda>a b. (a + b) / 2) p q
      in sqrt ((kl_divergence p m + kl_divergence q m) / 2))"




section \<open>Jensen-Shannon divergence on float32 tensors\<close>

text \<open>
  The tensors the function receives are \<open>float32\<close>: every operation returns the exact
  result rounded to the nearest value of the format, ties to the even significand, and
  an infinity beyond the greatest finite value. \<open>rne\<close> rounds a real to the nearest
  integer, ties to even; \<open>exponent32\<close> is the binary exponent of a number, held within
  the format's range (below \<open>2 powi (- 126)\<close> the spacing stays that of the subnormal numbers);
  \<open>binary32\<close> rounds to a multiple of the spacing at that exponent. The two zeros of the
  format are one value here: no operation of the function tells them apart.
\<close>

definition rne :: "real \<Rightarrow> int" where
  "rne y =
     (let f = \<lfloor>y\<rfloor>; d = y - of_int f
      in if d < 1 / 2 then f else if 1 / 2 < d then f + 1 else if even f then f else f + 1)"

definition exponent32 :: "real \<Rightarrow> int" where
  "exponent32 x = Max (insert (- 126) {e \<in> {- 126 .. 127}. 2 powi e \<le> \<bar>x\<bar>})"

definition binary32 :: "real \<Rightarrow> fl" where
  "binary32 x =
     (let q = 2 powi (exponent32 x - 23);
          r = of_int (rne (x / q)) * q
      in if FLOAT_MAX < r then PosInf else if r < - FLOAT_MAX then NegInf else Fin r)"

















section \<open>The CTC decoding backend\<close>

text \<open>
  The input is \<open>[B, C + 1, T]\<close> (\<open>L3\<close> with \<open>C + 1\<close> channels). The blank class is the
  literal \<open>40\<close> in \<open>_backend\<close> and the last channel in \<open>_backend_old\<close>; the
  configuration has 41 output channels.
\<close>

definition BLANK :: nat where
  "BLANK = 40"

text \<open>Python indexing of a list: a negative index counts from the end.\<close>

definition py_nth :: "'a list \<Rightarrow> int \<Rightarrow> 'a" where
  "py_nth xs i = (if i < 0 then xs ! nat (int (length xs) + i) else xs ! nat i)"

text \<open>
  \<open>torch.argwhere(predictions == 40)\<close>: the positions of the blank predictions, row
  by row and in each row by increasing time. It is computed once, before the loop.
\<close>

definition blank_times :: "nat list \<Rightarrow> nat list" where
  "blank_times row = filter (\<lambda>t. row ! t = BLANK) [0..<length row]"

definition argwhere_blank :: "nat list list \<Rightarrow> (nat \<times> nat) list" where
  "argwhere_blank predictions =
     concat (map (\<lambda>b. map (\<lambda>t. (b, t)) (blank_times (predictions ! b)))
               [0..<length predictions])"

text \<open>
  One pass of the loop body, on the pair of \<open>predictions\<close> and \<open>predicted_logits\<close>.
  \<open>previous_timestep_max\<close> is read before \<open>predictions[batch, time]\<close> is written; the
  two cells coincide only when the row has a single timestep, and then the value
  written is the value read.
\<close>

definition backend_step ::
  "nat \<times> nat \<Rightarrow> nat list list \<times> real list list list \<Rightarrow> nat list list \<times> real list list list" where
  "backend_step bt st =
     (case bt of (batch, time) \<Rightarrow>
      case st of (predictions, predicted_logits) \<Rightarrow>
        let previous_timestep_max = py_nth (predictions ! batch) (int time - 1);
            predictions' = predictions[batch := (predictions ! batch)
                             [time := py_nth (predictions ! batch) (int time - 1)]];
            sequence = predicted_logits ! batch;
            predicted_logits' = predicted_logits[batch := sequence
                             [previous_timestep_max := (sequence ! previous_timestep_max)
                                [time := sequence ! BLANK ! time]]]
        in (predictions', predicted_logits'))"

text \<open>
  The state when the loop ends: the decoded \<open>predictions\<close> and the logits as mutated
  in place. The function needs a tensor of rank three.
\<close>

fun backend_state :: "ltensor \<Rightarrow> error + nat list list \<times> real list list list" where
  "backend_state (L3 C T seqs) =
     (if C = 0 then Inl IndexError
      else
        let predictions = map (\<lambda>s. map (\<lambda>t. argmax (column s t)) [0..<T]) seqs
        in Inr (fold backend_step (argwhere_blank predictions) (predictions, seqs)))"
| "backend_state (L2 C rows) = Inl IndexError"

text \<open>\<open>predicted_logits[:, :-1, :]\<close>: every sequence without its last channel.\<close>

definition drop_last_channel :: "nat \<Rightarrow> nat \<Rightarrow> real list list list \<Rightarrow> ltensor" where
  "drop_last_channel C T seqs = L3 (C - 1) T (map butlast seqs)"

fun backend :: "ltensor \<Rightarrow> error + ltensor" where
  "backend (L3 C T seqs) =
     (case backend_state (L3 C T seqs) of
        Inl e \<Rightarrow> Inl e
      | Inr (predictions, predicted_logits) \<Rightarrow> Inr (drop_last_channel C T predicted_logits))"
| "backend (L2 C rows) = Inl IndexError"

text \<open>
  \<open>_backend_old\<close> walks each sequence timestep by timestep. \<open>timestep\<close> is a view of
  one column of the sequence, so the assignment to \<open>timestep[current_prediction]\<close>
  writes into the logits; \<open>timestep[-1]\<close> is the last channel at that timestep.
\<close>

definition backend_old_step ::
  "nat \<Rightarrow> nat option \<times> real list list \<Rightarrow> nat option \<times> real list list" where
  "backend_old_step t st =
     (case st of (current_prediction, sequence_logits) \<Rightarrow>
        let timestep = column sequence_logits t;
            timestep_prediction = argmax timestep
        in (case current_prediction of
              None \<Rightarrow> (Some timestep_prediction, sequence_logits)
            | Some c \<Rightarrow>
                if timestep_prediction = length timestep - 1
                then (Some c, sequence_logits[c := (sequence_logits ! c)[t := py_nth timestep (- 1)]])
                else (Some timestep_prediction, sequence_logits)))"

definition backend_old_sequence :: "nat \<Rightarrow> real list list \<Rightarrow> real list list" where
  "backend_old_sequence T sequence_logits =
     snd (fold backend_old_step [0..<T] (None, sequence_logits))"

text \<open>
  The logits as \<open>_backend_old\<close> leaves them, and its result. Taking \<open>argmax\<close> of a
  timestep without channels raises, which happens as soon as there is a timestep.
\<close>

fun backend_old_state :: "ltensor \<Rightarrow> error + real list list list" where
  "backend_old_state (L3 C T seqs) =
     (if C = 0 \<and> 0 < T \<and> seqs \<noteq> [] then Inl IndexError
      else Inr (map (backend_old_sequence T) seqs))"
| "backend_old_state (L2 C rows) = Inl IndexError"

fun backend_old :: "ltensor \<Rightarrow> error + ltensor" where
  "backend_old (L3 C T seqs) =
     (case backend_old_state (L3 C T seqs) of
        Inl e \<Rightarrow> Inl e
      | Inr predicted_logits \<Rightarrow> Inr (drop_last_channel C T predicted_logits))"
| "backend_old (L2 C rows) = Inl IndexError"

text \<open>
  The loop of \<open>_backend\<close> seen from one row: the steps at the row's blank times act on
  the row's predictions and logits only.
\<close>

definition row_step :: "nat \<Rightarrow> nat list \<times> real list list \<Rightarrow> nat list \<times> real list list" where
  "row_step t st =
     (case st of (pr, sq) \<Rightarrow>
        (pr[t := py_nth pr (int t - 1)],
         sq[py_nth pr (int t - 1) := (sq ! py_nth pr (int t - 1))[t := sq ! BLANK ! t]]))"

definition row_predictions :: "nat \<Rightarrow> real list list \<Rightarrow> nat list" where
  "row_predictions T sq = map (\<lambda>t. argmax (column sq t)) [0..<T]"

definition row_run :: "nat \<Rightarrow> real list list \<Rightarrow> nat list \<times> real list list" where
  "row_run T sq =
     fold row_step (blank_times (row_predictions T sq)) (row_predictions T sq, sq)"

text \<open>A row of predictions and logits of the right sizes, every prediction a channel.\<close>

definition row_ok :: "nat \<Rightarrow> nat \<Rightarrow> nat list \<times> real list list \<Rightarrow> bool" where
  "row_ok C T st = (length (fst st) = T \<and> length (snd st) = C
     \<and> (\<forall>ch \<in> set (snd st). length ch = T) \<and> (\<forall>x \<in> set (fst st). x < C))"

section \<open>Properties of the accumulators\<close>

theorem zero_count_report_counterexample:
  "Accuracy_call (Accuracy_init ''test'') = Inl ZeroDivisionError
   \<and> TopKAccuracy_call (TopKAccuracy_init ''test'' 3) = Inl ZeroDivisionError"
  by (simp add: Accuracy_call_def Accuracy_init_def Accuracy_reset_def
      TopKAccuracy_call_def TopKAccuracy_init_def TopKAccuracy_reset_def)

text \<open>
  C3, as the code has it. When the zero denominator of \<open>Accuracy\<close> is a tensor (the
  state after an update), the report does not raise and carries a non-finite value.
  When it is still the Python integer of \<open>reset\<close>, and for every \<open>TopKAccuracy\<close>
  whose count is zero, the division raises \<open>ZeroDivisionError\<close>.
\<close>

theorem zero_count_report:
  "(acc_count self = Tensor 0 \<longrightarrow>
      (\<exists>v. Accuracy_call self = Inr [(''Accuracy/'' @ acc_display_suffix self, v)]
           \<and> (v = NaN \<or> v = PosInf \<or> v = NegInf)))
   \<and> (acc_count self = PyInt 0 \<and> (\<exists>a. acc_true_positives self = PyInt a) \<longrightarrow>
        Accuracy_call self = Inl ZeroDivisionError)
   \<and> (topk_count tk = 0 \<longrightarrow> TopKAccuracy_call tk = Inl ZeroDivisionError)"
  by (cases "acc_true_positives self")
     (auto simp: Accuracy_call_def TopKAccuracy_call_def tensor_div_def)

theorem zero_count_report_witness:
  "acc_count \<lparr>acc_display_suffix = ''val'', acc_count = Tensor 0, acc_true_positives = Tensor 0\<rparr>
     = Tensor 0
   \<and> Accuracy_call \<lparr>acc_display_suffix = ''val'', acc_count = Tensor 0, acc_true_positives = Tensor 0\<rparr>
     = Inr [(''Accuracy/val'', NaN)]
   \<and> acc_count (Accuracy_init ''val'') = PyInt 0
   \<and> acc_true_positives (Accuracy_init ''val'') = PyInt 0
   \<and> Accuracy_call (Accuracy_init ''val'') = Inl ZeroDivisionError
   \<and> topk_count (TopKAccuracy_init ''val'' 5) = 0
   \<and> TopKAccuracy_call (TopKAccuracy_init ''val'' 5) = Inl ZeroDivisionError"
  using zero_count_report
    [of "\<lparr>acc_display_suffix = ''val'', acc_count = Tensor 0, acc_true_positives = Tensor 0\<rparr>"
        "TopKAccuracy_init ''val'' 5"]
    zero_count_report [of "Accuracy_init ''val''" "TopKAccuracy_init ''val'' 5"]
  by (simp add: Accuracy_init_def Accuracy_reset_def TopKAccuracy_init_def
      TopKAccuracy_reset_def Accuracy_call_def tensor_div_def)

subsection \<open>Accuracy over a stream\<close>


lemma bool_sum_map: "bool_sum (map P xs) = int (length (filter P xs))"
  by (induction xs) (auto simp: bool_sum_def)

lemma bool_sum_map2:
  "bool_sum (map2 f xs ys) = int (length (filter (\<lambda>(x, y). f x y) (zip xs ys)))"
  unfolding bool_sum_def by (induction xs ys rule: list_induct2') auto

lemma filter_zip_map_fst:
  "length (filter (\<lambda>(x, y). P (f x) y) (zip xs ys)) = length (filter (\<lambda>(x, y). P x y) (zip (map f xs) ys))"
  by (induction xs ys rule: list_induct2') auto

lemma argmax_dim1_elems:
  "argmax_dim1 p = Inr q \<Longrightarrow> elems q = map (\<lambda>r. int (argmax r)) (frames p)"
  by (cases p) (auto simp: map_concat comp_def split: if_splits)

lemma argmax_dim1_shape:
  "shape_ok p t \<Longrightarrow> \<exists>q. argmax_dim1 p = Inr q \<and> same_shape q t"
proof (cases p; cases t)
  fix C T seqs tss
  assume p: "p = L3 C T seqs" and t: "t = I2 tss" and ok: "shape_ok p t"
  have "map length tss = map (\<lambda>s. T) seqs"
    using ok unfolding p t by (intro nth_equalityI) auto
  then show ?thesis using ok unfolding p t by (simp add: comp_def)
qed auto

lemma Accuracy_update_ok:
  assumes "shape_ok p t"
  shows "Accuracy_update self p t =
     Inr (self\<lparr>acc_true_positives := Tensor (num_value (acc_true_positives self) + correct_rows p t),
               acc_count := Tensor (num_value (acc_count self) + kept_rows t)\<rparr>)"
proof -
  obtain q where q: "argmax_dim1 p = Inr q" "same_shape q t"
    using argmax_dim1_shape[OF assms] by blast
  have e: "elems q = map (\<lambda>r. int (argmax r)) (frames p)"
    using q(1) by (rule argmax_dim1_elems)
  show ?thesis
    unfolding Accuracy_update_def
    by (simp add: q e Let_def iadd_tensor_def bool_sum_map bool_sum_map2 correct_rows_def kept_rows_def
        filter_zip_map_fst[of "\<lambda>a tg. a = tg \<and> tg \<noteq> - 100" "\<lambda>r. int (argmax r)", symmetric])
qed


lemma Accuracy_updates_ok:
  assumes "bs \<noteq> []" and "\<forall>(p, t) \<in> set bs. shape_ok p t"
  shows "Accuracy_updates self bs =
     Inr (self\<lparr>acc_true_positives :=
                 Tensor (num_value (acc_true_positives self) + (\<Sum>(p, t)\<leftarrow>bs. correct_rows p t)),
               acc_count :=
                 Tensor (num_value (acc_count self) + (\<Sum>(p, t)\<leftarrow>bs. kept_rows t))\<rparr>)"
  using assms
proof (induction bs arbitrary: self)
  case Nil
  then show ?case by simp
next
  case (Cons b bs)
  obtain p t where b: "b = (p, t)" by (cases b)
  have ok: "shape_ok p t" using Cons.prems(2) by (simp add: b)
  show ?case
  proof (cases "bs = []")
    case True
    then show ?thesis by (simp add: b Accuracy_update_ok[OF ok])
  next
    case False
    have "\<forall>(p, t) \<in> set bs. shape_ok p t" using Cons.prems(2) by simp
    from Cons.IH[OF False this] show ?thesis
      by (simp add: b Accuracy_update_ok[OF ok] add.assoc)
  qed
qed

theorem Accuracy_update_report_counterexample:
  "Accuracy_call (Accuracy_init ''test'') = Inl ZeroDivisionError
   \<and> Accuracy_update (Accuracy_init ''test'') (L2 2 [[1, 2]]) (I1 [- 100])
       = Inr \<lparr>acc_display_suffix = ''test'', acc_count = Tensor 0, acc_true_positives = Tensor 0\<rparr>
   \<and> Accuracy_call \<lparr>acc_display_suffix = ''test'', acc_count = Tensor 0, acc_true_positives = Tensor 0\<rparr>
       = Inr [(''Accuracy/test'', NaN)]"
  by (simp add: Accuracy_call_def Accuracy_init_def Accuracy_reset_def Accuracy_update_def
      iadd_tensor_def bool_sum_def tensor_div_def)

text \<open>
  C4, as the code has it. After a stream of well-shaped batches fed to a fresh
  \<open>Accuracy\<close>, the numerator is the number of rows whose arg-max class is the target (the
  target not being \<open>-100\<close>), the denominator the number of rows whose target is not
  \<open>-100\<close>, both summed over the batches; after at least one batch the report is their
  quotient (\<open>nan\<close> for \<open>0 / 0\<close>), after none the division of the two Python integers
  raises. An update whose targets are all \<open>-100\<close> leaves the values of numerator and
  denominator as they were and turns both into tensors. The report after it is the
  quotient of those values: the report is unchanged exactly when the accumulator already
  held a tensor, and on a fresh or reset accumulator it changes from
  \<open>ZeroDivisionError\<close> to \<open>nan\<close>.
\<close>

theorem Accuracy_update_report:
  "((\<forall>(p, t) \<in> set bs. shape_ok p t) \<longrightarrow>
      (\<exists>s. Accuracy_updates (Accuracy_init sfx) bs = Inr s
         \<and> num_value (acc_true_positives s) = (\<Sum>(p, t)\<leftarrow>bs. correct_rows p t)
         \<and> num_value (acc_count s) = (\<Sum>(p, t)\<leftarrow>bs. kept_rows t)
         \<and> (bs \<noteq> [] \<longrightarrow>
               acc_true_positives s = Tensor (\<Sum>(p, t)\<leftarrow>bs. correct_rows p t)
             \<and> acc_count s = Tensor (\<Sum>(p, t)\<leftarrow>bs. kept_rows t)
             \<and> Accuracy_call s =
                 Inr [(''Accuracy/'' @ sfx,
                       tensor_div (\<Sum>(p, t)\<leftarrow>bs. correct_rows p t) (\<Sum>(p, t)\<leftarrow>bs. kept_rows t))])
         \<and> (bs = [] \<longrightarrow> Accuracy_call s = Inl ZeroDivisionError)))
   \<and> (shape_ok p t \<and> (\<forall>tg \<in> set (elems t). tg = - 100) \<longrightarrow>
      (\<exists>s'. Accuracy_update self p t = Inr s'
         \<and> num_value (acc_true_positives s') = num_value (acc_true_positives self)
         \<and> num_value (acc_count s') = num_value (acc_count self)
         \<and> Accuracy_call s' =
             Inr [(''Accuracy/'' @ acc_display_suffix self,
                   tensor_div (num_value (acc_true_positives self)) (num_value (acc_count self)))]
         \<and> ((\<exists>a b. acc_true_positives self = Tensor a \<and> acc_count self = Tensor b) \<longrightarrow> s' = self)
         \<and> ((Accuracy_call s' = Accuracy_call self)
              = (\<not> (\<exists>a b. acc_true_positives self = PyInt a \<and> acc_count self = PyInt b)))
         \<and> (acc_true_positives self = PyInt 0 \<and> acc_count self = PyInt 0 \<longrightarrow>
              Accuracy_call self = Inl ZeroDivisionError
            \<and> Accuracy_call s' = Inr [(''Accuracy/'' @ acc_display_suffix self, NaN)])))"
proof (intro conjI impI)
  assume a: "\<forall>(p, t) \<in> set bs. shape_ok p t"
  show "\<exists>s. Accuracy_updates (Accuracy_init sfx) bs = Inr s
         \<and> num_value (acc_true_positives s) = (\<Sum>(p, t)\<leftarrow>bs. correct_rows p t)
         \<and> num_value (acc_count s) = (\<Sum>(p, t)\<leftarrow>bs. kept_rows t)
         \<and> (bs \<noteq> [] \<longrightarrow>
               acc_true_positives s = Tensor (\<Sum>(p, t)\<leftarrow>bs. correct_rows p t)
             \<and> acc_count s = Tensor (\<Sum>(p, t)\<leftarrow>bs. kept_rows t)
             \<and> Accuracy_call s =
                 Inr [(''Accuracy/'' @ sfx,
                       tensor_div (\<Sum>(p, t)\<leftarrow>bs. correct_rows p t) (\<Sum>(p, t)\<leftarrow>bs. kept_rows t))])
         \<and> (bs = [] \<longrightarrow> Accuracy_call s = Inl ZeroDivisionError)"
  proof (cases "bs = []")
    case True
    then show ?thesis
      by (simp add: Accuracy_init_def Accuracy_reset_def Accuracy_call_def)
  next
    case False
    then show ?thesis
      using a
      by (simp add: Accuracy_updates_ok Accuracy_init_def Accuracy_reset_def Accuracy_call_def)
  qed
next
  assume a: "shape_ok p t \<and> (\<forall>tg \<in> set (elems t). tg = - 100)"
  have k: "kept_rows t = 0"
    using a by (auto simp: kept_rows_def filter_empty_conv)
  have "filter (\<lambda>(row, tg). int (argmax row) = tg \<and> tg \<noteq> - 100) (zip (frames p) (elems t)) = []"
    using a by (auto simp: filter_empty_conv dest: set_zip_rightD)
  then have c: "correct_rows p t = 0"
    by (simp add: correct_rows_def)
  define s' where "s' = self\<lparr>acc_true_positives := Tensor (num_value (acc_true_positives self)),
               acc_count := Tensor (num_value (acc_count self))\<rparr>"
  have u: "Accuracy_update self p t = Inr s'"
    using a by (simp add: Accuracy_update_ok k c s'_def)
  have call': "Accuracy_call s' =
             Inr [(''Accuracy/'' @ acc_display_suffix self,
                   tensor_div (num_value (acc_true_positives self)) (num_value (acc_count self)))]"
    by (simp add: s'_def Accuracy_call_def)
  have same: "(Accuracy_call s' = Accuracy_call self)
              = (\<not> (\<exists>a b. acc_true_positives self = PyInt a \<and> acc_count self = PyInt b))"
    unfolding call'
    by (cases "acc_true_positives self"; cases "acc_count self")
       (auto simp: Accuracy_call_def)
  have fresh: "acc_true_positives self = PyInt 0 \<and> acc_count self = PyInt 0 \<longrightarrow>
              Accuracy_call self = Inl ZeroDivisionError
            \<and> Accuracy_call s' = Inr [(''Accuracy/'' @ acc_display_suffix self, NaN)]"
    unfolding call' by (auto simp: Accuracy_call_def tensor_div_def)
  have unchanged: "(\<exists>a b. acc_true_positives self = Tensor a \<and> acc_count self = Tensor b) \<longrightarrow> s' = self"
    by (auto simp: s'_def)
  show "\<exists>s'. Accuracy_update self p t = Inr s'
         \<and> num_value (acc_true_positives s') = num_value (acc_true_positives self)
         \<and> num_value (acc_count s') = num_value (acc_count self)
         \<and> Accuracy_call s' =
             Inr [(''Accuracy/'' @ acc_display_suffix self,
                   tensor_div (num_value (acc_true_positives self)) (num_value (acc_count self)))]
         \<and> ((\<exists>a b. acc_true_positives self = Tensor a \<and> acc_count self = Tensor b) \<longrightarrow> s' = self)
         \<and> ((Accuracy_call s' = Accuracy_call self)
              = (\<not> (\<exists>a b. acc_true_positives self = PyInt a \<and> acc_count self = PyInt b)))
         \<and> (acc_true_positives self = PyInt 0 \<and> acc_count self = PyInt 0 \<longrightarrow>
              Accuracy_call self = Inl ZeroDivisionError
            \<and> Accuracy_call s' = Inr [(''Accuracy/'' @ acc_display_suffix self, NaN)])"
    using u call' same fresh unchanged by (intro exI[of _ s']) (simp add: s'_def)
qed

theorem Accuracy_update_report_witness:
  "shape_ok (L2 3 [[1, 9, 0], [5, 2, 3], [1, 2, 3]]) (I1 [1, 2, - 100])
   \<and> shape_ok (L3 2 2 [[[1, 0], [0, 1]]]) (I2 [[0, - 100]])
   \<and> (\<exists>s. Accuracy_updates (Accuracy_init ''val'')
          [(L2 3 [[1, 9, 0], [5, 2, 3], [1, 2, 3]], I1 [1, 2, - 100]),
           (L3 2 2 [[[1, 0], [0, 1]]], I2 [[0, - 100]])] = Inr s
        \<and> acc_true_positives s = Tensor 2 \<and> acc_count s = Tensor 3
        \<and> Accuracy_call s = Inr [(''Accuracy/val'', Fin (2 / 3))])
   \<and> shape_ok (L2 2 [[1, 2]]) (I1 [- 100])
   \<and> Accuracy_update \<lparr>acc_display_suffix = ''val'', acc_count = Tensor 3, acc_true_positives = Tensor 2\<rparr>
       (L2 2 [[1, 2]]) (I1 [- 100])
     = Inr \<lparr>acc_display_suffix = ''val'', acc_count = Tensor 3, acc_true_positives = Tensor 2\<rparr>
   \<and> (\<exists>s'. Accuracy_update (Accuracy_init ''val'') (L2 2 [[1, 2]]) (I1 [- 100]) = Inr s'
        \<and> Accuracy_call s' = Inr [(''Accuracy/val'', NaN)]
        \<and> Accuracy_call s' \<noteq> Accuracy_call (Accuracy_init ''val''))"
proof -
  have c1: "correct_rows (L2 3 [[1, 9, 0], [5, 2, 3], [1, 2, 3]]) (I1 [1, 2, - 100]) = 1"
    by code_simp
  have c2: "correct_rows (L3 2 2 [[[1, 0], [0, 1]]]) (I2 [[0, - 100]]) = 1"
    by code_simp
  have k1: "kept_rows (I1 [1, 2, - 100]) = 2"
    by code_simp
  have k2: "kept_rows (I2 [[0, - 100]]) = 1"
    by code_simp
  have part1: "shape_ok (L2 3 [[1, 9, 0], [5, 2, 3], [1, 2, 3]]) (I1 [1, 2, - 100])
   \<and> shape_ok (L3 2 2 [[[1, 0], [0, 1]]]) (I2 [[0, - 100]])
   \<and> (\<exists>s. Accuracy_updates (Accuracy_init ''val'')
          [(L2 3 [[1, 9, 0], [5, 2, 3], [1, 2, 3]], I1 [1, 2, - 100]),
           (L3 2 2 [[[1, 0], [0, 1]]], I2 [[0, - 100]])] = Inr s
        \<and> acc_true_positives s = Tensor 2 \<and> acc_count s = Tensor 3
        \<and> Accuracy_call s = Inr [(''Accuracy/val'', Fin (2 / 3))])
   \<and> shape_ok (L2 2 [[1, 2]]) (I1 [- 100])
   \<and> Accuracy_update \<lparr>acc_display_suffix = ''val'', acc_count = Tensor 3, acc_true_positives = Tensor 2\<rparr>
       (L2 2 [[1, 2]]) (I1 [- 100])
     = Inr \<lparr>acc_display_suffix = ''val'', acc_count = Tensor 3, acc_true_positives = Tensor 2\<rparr>"
    using Accuracy_update_report
      [of "[(L2 3 [[1, 9, 0], [5, 2, 3], [1, 2, 3]], I1 [1, 2, - 100]),
            (L3 2 2 [[[1, 0], [0, 1]]], I2 [[0, - 100]])]"
          "''val''" "L2 2 [[1, 2]]" "I1 [- 100]"
          "\<lparr>acc_display_suffix = ''val'', acc_count = Tensor 3, acc_true_positives = Tensor 2\<rparr>"]
    by (auto simp add: c1 c2 k1 k2 tensor_div_def)
  have part2: "\<exists>s'. Accuracy_update (Accuracy_init ''val'') (L2 2 [[1, 2]]) (I1 [- 100]) = Inr s'
        \<and> Accuracy_call s' = Inr [(''Accuracy/val'', NaN)]
        \<and> Accuracy_call s' \<noteq> Accuracy_call (Accuracy_init ''val'')"
    using Accuracy_update_report
      [of "[]" "''val''" "L2 2 [[1, 2]]" "I1 [- 100]" "Accuracy_init ''val''"]
    by (auto simp add: Accuracy_init_def Accuracy_reset_def)
  show ?thesis using part1 part2 by blast
qed

subsection \<open>Top-k accuracy\<close>

lemma logit_le_iff:
  assumes "0 < x" "x < 1" "0 < y" "y < 1"
  shows "logit x \<le> logit y \<longleftrightarrow> x \<le> y"
proof -
  have "x / (1 - x) \<le> y / (1 - y) \<longleftrightarrow> x * (1 - y) \<le> y * (1 - x)"
    using assms by (simp add: field_simps)
  also have "\<dots> \<longleftrightarrow> x \<le> y" by (simp add: algebra_simps)
  finally show ?thesis
    unfolding logit_def using assms by (subst ln_le_cancel_iff) auto
qed

lemma logit_less_iff:
  assumes "0 < x" "x < 1" "0 < y" "y < 1"
  shows "logit x < logit y \<longleftrightarrow> x < y"
  using logit_le_iff[OF assms(3,4,1,2)] by (simp add: not_le[symmetric])

lemma topk_loop_ok:
  assumes "\<forall>i \<in> set is. hit i = Inr (P i)"
  shows "topk_loop hit is self =
     Inr (self\<lparr>correct_in_top_k := correct_in_top_k self + int (length (filter P is)),
               topk_count := topk_count self + int (length is)\<rparr>)"
  using assms
proof (induction "is" arbitrary: self)
  case Nil
  then show ?case by simp
next
  case (Cons i "is")
  then show ?case by (simp add: add.assoc)
qed

lemma filter_upt_zip:
  assumes "length ys \<le> length xs"
  shows "length (filter (\<lambda>i. Q (xs ! i) (ys ! i)) [0..<length ys])
       = length (filter (\<lambda>(x, y). Q x y) (zip xs ys))"
proof -
  have "zip xs ys = map (\<lambda>i. (xs ! i, ys ! i)) [0..<length ys]"
    using assms by (intro nth_equalityI) auto
  then show ?thesis
    by (simp add: filter_map comp_def)
qed

lemma topk_lowest_first_contract: "topk_contract topk_lowest_first"
  unfolding topk_contract_def is_topk_def
proof (intro allI impI conjI ballI)
  fix k :: nat and row :: "real list"
  assume k: "k \<le> length row"
  define ys where "ys = sort_key (\<lambda>i. - (row ! i)) [0..<length row]"
  have tk: "topk_lowest_first k row = take k ys"
    by (simp add: topk_lowest_first_def ys_def)
  have set_ys: "set ys = {0..<length row}" and len: "length ys = length row"
    and dist: "distinct ys"
    by (simp_all add: ys_def)
  have srt: "sorted (map (\<lambda>i. - (row ! i)) (take k ys @ drop k ys))"
    by (simp add: ys_def)
  show "length (topk_lowest_first k row) = k"
    using k by (simp add: tk len)
  show "distinct (topk_lowest_first k row)"
    using dist by (simp add: tk)
  show "sorted (map (\<lambda>i. - (row ! i)) (topk_lowest_first k row))"
    using srt unfolding tk map_append sorted_append by simp
  show "i < length row" if "i \<in> set (topk_lowest_first k row)" for i
    using that set_ys in_set_takeD[of i k ys] by (auto simp: tk)
  show "row ! j \<le> row ! i"
    if i: "i \<in> set (topk_lowest_first k row)" and j: "j \<in> set [0..<length row]"
      and nj: "j \<notin> set (topk_lowest_first k row)" for i j
  proof -
    have "set ys = set (take k ys) \<union> set (drop k ys)"
      by (metis append_take_drop_id set_append)
    then have "j \<in> set (drop k ys)"
      using j set_ys nj by (auto simp: tk)
    then have "- (row ! i) \<le> - (row ! j)"
      using srt i unfolding tk map_append sorted_append by auto
    then show ?thesis by simp
  qed
qed

lemma topk_hit:
  assumes c: "topk_contract topk" and k: "k \<le> length row" and j: "j < length row"
    and r: "rivals row j < k"
  shows "contains_index (topk k row) (int j)"
proof (rule ccontr)
  assume n: "\<not> contains_index (topk k row) (int j)"
  have t: "is_topk k row (topk k row)"
    using c k by (simp add: topk_contract_def)
  have nj: "j \<notin> set (topk k row)"
    using n by (auto simp: contains_index_def)
  have sub: "set (topk k row) \<subseteq> {i. i < length row \<and> i \<noteq> j \<and> row ! j \<le> row ! i}"
    using t nj j unfolding is_topk_def by auto
  have "rivals row j = card {i. i < length row \<and> i \<noteq> j \<and> row ! j \<le> row ! i}"
    unfolding rivals_def length_filter_conv_card
    by (rule arg_cong[where f = card]) auto
  moreover have "card (set (topk k row)) \<le> card {i. i < length row \<and> i \<noteq> j \<and> row ! j \<le> row ! i}"
    by (rule card_mono[OF _ sub]) simp
  moreover have "card (set (topk k row)) = k"
    using t unfolding is_topk_def by (simp add: distinct_card)
  ultimately show False using r by simp
qed

lemma topk_miss:
  assumes c: "topk_contract topk" and k: "k \<le> length row"
    and r: "k \<le> higher row j"
  shows "\<not> contains_index (topk k row) (int j)"
proof
  assume h: "contains_index (topk k row) (int j)"
  have t: "is_topk k row (topk k row)"
    using c k by (simp add: topk_contract_def)
  have jin: "j \<in> set (topk k row)"
    using h by (auto simp: contains_index_def)
  have sub: "insert j {i. i < length row \<and> row ! j < row ! i} \<subseteq> set (topk k row)"
  proof -
    have "i \<in> set (topk k row)" if "i < length row" "row ! j < row ! i" for i
    proof (rule ccontr)
      assume "i \<notin> set (topk k row)"
      then have "row ! i \<le> row ! j"
        using t jin that(1) unfolding is_topk_def by auto
      then show False using that(2) by simp
    qed
    then show ?thesis using jin by auto
  qed
  have "higher row j = card {i. i < length row \<and> row ! j < row ! i}"
    unfolding higher_def length_filter_conv_card
    by (rule arg_cong[where f = card]) auto
  moreover have "card (insert j {i. i < length row \<and> row ! j < row ! i})
      = Suc (card {i. i < length row \<and> row ! j < row ! i})"
    by (subst card_insert_disjoint) auto
  moreover have "card (insert j {i. i < length row \<and> row ! j < row ! i}) \<le> card (set (topk k row))"
    by (rule card_mono[OF _ sub]) simp
  moreover have "card (set (topk k row)) = k"
    using t unfolding is_topk_def by (simp add: distinct_card)
  ultimately show False using r by simp
qed

lemma TopKAccuracy_update_rows:
  assumes "topk_k self \<le> C" "length targets \<le> length rows"
  shows "TopKAccuracy_update topk self (L2 C rows) (I1 targets) =
        Inr (self\<lparr>correct_in_top_k := correct_in_top_k self
                     + top_k_rows topk (topk_k self) (L2 C rows) (I1 targets),
                  topk_count := topk_count self + int (length targets)\<rparr>)"
proof -
  let ?tk = "map (topk (topk_k self)) rows"
  let ?hit = "\<lambda>i. if i < length ?tk then Inr (contains_index (?tk ! i) (targets ! i)) else Inl IndexError"
  have "\<forall>i \<in> set [0..<length targets].
          ?hit i = Inr (contains_index (topk (topk_k self) (rows ! i)) (targets ! i))"
    using assms by auto
  from topk_loop_ok[OF this]
  show ?thesis
    using assms
    by (simp add: Let_def top_k_rows_def
        filter_upt_zip[of targets rows "\<lambda>row tg. contains_index (topk (topk_k self) row) tg"])
qed

lemma TopKAccuracy_update_seqs:
  assumes "topk_k self \<le> C" "length targets \<le> length seqs" "\<forall>ts \<in> set targets. length ts = T"
  shows "TopKAccuracy_update topk self (L3 C T seqs) (I2 targets) =
        Inr (self\<lparr>correct_in_top_k := correct_in_top_k self
                     + int (length (filter
                         (\<lambda>(s, ts). \<exists>t \<in> set [0..<T].
                              contains_index (topk (topk_k self) (column s t)) (ts ! t))
                         (zip seqs targets))),
                  topk_count := topk_count self + int (length targets)\<rparr>)"
proof -
  let ?tk = "map (\<lambda>s. map (\<lambda>t. topk (topk_k self) (column s t)) [0..<T]) seqs"
  let ?hit = "\<lambda>i. if length ?tk \<le> i then Inl IndexError
                   else if length (targets ! i) \<noteq> T then Inl ShapeError
                   else Inr (contains_seq (?tk ! i) (targets ! i))"
  let ?Q = "\<lambda>s ts. \<exists>t \<in> set [0..<T]. contains_index (topk (topk_k self) (column s t)) (ts ! t)"
  have "\<forall>i \<in> set [0..<length targets]. ?hit i = Inr (?Q (seqs ! i) (targets ! i))"
    using assms by (auto simp: contains_seq_def)
  from topk_loop_ok[OF this]
  have loop: "topk_loop ?hit [0..<length targets] self =
     Inr (self\<lparr>correct_in_top_k := correct_in_top_k self
             + int (length (filter (\<lambda>i. ?Q (seqs ! i) (targets ! i)) [0..<length targets])),
           topk_count := topk_count self + int (length [0..<length targets])\<rparr>)" .
  have eq: "length (filter (\<lambda>i. ?Q (seqs ! i) (targets ! i)) [0..<length targets])
      = length (filter (\<lambda>(s, ts). ?Q s ts) (zip seqs targets))"
    by (rule filter_upt_zip[OF assms(2)])
  have "TopKAccuracy_update topk self (L3 C T seqs) (I2 targets)
      = topk_loop ?hit [0..<length targets] self"
    using assms(1) by (simp add: Let_def)
  then show ?thesis
    unfolding loop eq by simp
qed

lemma example_row0:
  "rivals (map logit [0.55, 0.16, 0.05, 0.1, 0.14]) 1 < 3"
  by (simp add: rivals_def upt_conv_Cons logit_le_iff)

lemma example_row1:
  "3 \<le> higher (map logit [0.2, 0.25, 0.11, 0.35, 0.09]) 4"
  by (simp add: higher_def upt_conv_Cons logit_less_iff)

lemma example_state:
  assumes c: "topk_contract topk"
  shows "TopKAccuracy_update topk (TopKAccuracy_init sfx 3)
        (L2 5 [map logit [0.55, 0.16, 0.05, 0.1, 0.14], map logit [0.2, 0.25, 0.11, 0.35, 0.09]])
        (I1 [1, 4])
      = Inr \<lparr>topk_display_suffix = sfx, topk_k = 3, topk_count = 2, correct_in_top_k = 1\<rparr>"
proof -
  have "contains_index (topk 3 (map logit [0.55, 0.16, 0.05, 0.1, 0.14])) (int 1)"
    by (rule topk_hit[OF c _ _ example_row0]) simp_all
  then have h0: "contains_index (topk 3 (map logit [0.55, 0.16, 0.05, 0.1, 0.14])) 1"
    by simp
  have "\<not> contains_index (topk 3 (map logit [0.2, 0.25, 0.11, 0.35, 0.09])) (int 4)"
    by (rule topk_miss[OF c _ example_row1]) simp
  then have h1: "\<not> contains_index (topk 3 (map logit [0.2, 0.25, 0.11, 0.35, 0.09])) 4"
    by simp
  have k: "topk_k (TopKAccuracy_init sfx 3) \<le> 5"
    by (simp add: TopKAccuracy_init_def TopKAccuracy_reset_def)
  show ?thesis
    unfolding TopKAccuracy_update_rows[OF k, of "[1, 4]" "[map logit [0.55, 0.16, 0.05, 0.1, 0.14], map logit [0.2, 0.25, 0.11, 0.35, 0.09]]" topk, simplified]
    using h0 h1
    by (simp add: top_k_rows_def TopKAccuracy_init_def TopKAccuracy_reset_def)
qed

lemma top1_columns:
  assumes c: "topk_contract topk"
  shows "contains_index (topk 1 [1, 0]) 0" "\<not> contains_index (topk 1 [1, 0]) 1"
    "contains_index (topk 1 [0, 1]) 1" "\<not> contains_index (topk 1 [0, 1]) 0"
proof -
  show "contains_index (topk 1 [1, 0]) 0"
    using topk_hit[OF c, of 1 "[1, 0]" 0] by (simp add: rivals_def upt_conv_Cons)
  show "\<not> contains_index (topk 1 [1, 0]) 1"
    using topk_miss[OF c, of 1 "[1, 0]" 1] by (simp add: higher_def upt_conv_Cons)
  show "contains_index (topk 1 [0, 1]) 1"
    using topk_hit[OF c, of 1 "[0, 1]" 1] by (simp add: rivals_def upt_conv_Cons)
  show "\<not> contains_index (topk 1 [0, 1]) 0"
    using topk_miss[OF c, of 1 "[0, 1]" 0] by (simp add: higher_def upt_conv_Cons)
qed

lemma sequences_state:
  assumes c: "topk_contract topk"
  shows "TopKAccuracy_update topk (TopKAccuracy_init sfx 1)
           (L3 2 2 [[[1, 0], [0, 1]], [[1, 0], [0, 1]]]) (I2 [[0, 1], [0, 0]])
         = Inr \<lparr>topk_display_suffix = sfx, topk_k = 1, topk_count = 2, correct_in_top_k = 2\<rparr>"
    and "top_k_rows topk 1 (L3 2 2 [[[1, 0], [0, 1]], [[1, 0], [0, 1]]]) (I2 [[0, 1], [0, 0]]) = 3"
    and "length (frames (L3 2 2 [[[1, 0], [0, 1]], [[1, 0], [0, 1]]])) = 4"
proof -
  have k: "topk_k (TopKAccuracy_init sfx 1) \<le> 2"
    by (simp add: TopKAccuracy_init_def TopKAccuracy_reset_def)
  have col: "column [[1, 0], [0, 1 :: real]] 0 = [1, 0]" "column [[1, 0], [0, 1 :: real]] 1 = [0, 1]"
    "column [[1, 0], [0, 1 :: real]] (Suc 0) = [0, 1]"
    by (simp_all add: column_def)
  have "TopKAccuracy_update topk (TopKAccuracy_init sfx 1)
           (L3 2 2 [[[1, 0], [0, 1]], [[1, 0], [0, 1]]]) (I2 [[0, 1], [0, 0]])
      = Inr ((TopKAccuracy_init sfx 1)\<lparr>correct_in_top_k := correct_in_top_k (TopKAccuracy_init sfx 1)
                     + int (length (filter
                         (\<lambda>(s, ts). \<exists>t \<in> set [0..<2].
                              contains_index (topk (topk_k (TopKAccuracy_init sfx 1)) (column s t)) (ts ! t))
                         (zip [[[1, 0], [0, 1]], [[1, 0], [0, 1]]] [[0, 1], [0, 0]]))),
                  topk_count := topk_count (TopKAccuracy_init sfx 1) + int (length [[0, 1], [0, 0 :: int]])\<rparr>)"
    by (rule TopKAccuracy_update_seqs[OF k]) simp_all
  then show "TopKAccuracy_update topk (TopKAccuracy_init sfx 1)
           (L3 2 2 [[[1, 0], [0, 1]], [[1, 0], [0, 1]]]) (I2 [[0, 1], [0, 0]])
         = Inr \<lparr>topk_display_suffix = sfx, topk_k = 1, topk_count = 2, correct_in_top_k = 2\<rparr>"
    using top1_columns[OF c]
    by (simp add: TopKAccuracy_init_def TopKAccuracy_reset_def col upt_conv_Cons)
  show "top_k_rows topk 1 (L3 2 2 [[[1, 0], [0, 1]], [[1, 0], [0, 1]]]) (I2 [[0, 1], [0, 0]]) = 3"
    using top1_columns[OF c]
    by (simp add: top_k_rows_def col upt_conv_Cons)
  show "length (frames (L3 2 2 [[[1, 0], [0, 1]], [[1, 0], [0, 1]]])) = 4"
    by (simp add: upt_conv_Cons)
qed

text \<open>
  C8. On an \<open>[N, C]\<close> batch \<open>TopKAccuracy.update\<close> adds one to \<open>count\<close> for every
  target, whatever its value, and one to \<open>correct_in_top_k\<close> for every row whose target
  is among the row's top-k indices: these hold every class that fewer than \<open>k\<close> other
  classes match or beat, no class that \<open>k\<close> classes beat, and never the ignore sentinel
  \<open>-100\<close>. On the two rows of the source's own example, with \<open>k = 3\<close>, the state becomes
  \<open>correct_in_top_k = 1\<close>, \<open>count = 2\<close>. On a \<open>[B, C, T]\<close> batch, which
  \<open>Metrics.update\<close> feeds to this metric as to the others, the loop runs once per
  sequence: \<open>count\<close> grows by the number of sequences and a sequence is correct when
  at any of its timesteps the target is among the top-k of that timestep. On two
  sequences of two timesteps, with three of the four rows correct, the state becomes
  \<open>correct_in_top_k = 2\<close>, \<open>count = 2\<close>.
\<close>

theorem TopKAccuracy_update_counts:
  "(topk_k self \<le> C \<and> length targets \<le> length rows \<longrightarrow>
      TopKAccuracy_update topk self (L2 C rows) (I1 targets) =
        Inr (self\<lparr>correct_in_top_k := correct_in_top_k self
                     + top_k_rows topk (topk_k self) (L2 C rows) (I1 targets),
                  topk_count := topk_count self + int (length targets)\<rparr>))
   \<and> (topk_contract topk \<and> k \<le> length row \<longrightarrow>
        (\<forall>j \<in> set [0..<length row].
            (rivals row j < k \<longrightarrow> contains_index (topk k row) (int j))
          \<and> (k \<le> higher row j \<longrightarrow> \<not> contains_index (topk k row) (int j))))
   \<and> \<not> contains_index (topk k row) (- 100)
   \<and> (topk_contract topk \<longrightarrow>
        TopKAccuracy_update topk (TopKAccuracy_init sfx 3)
          (L2 5 [map logit [0.55, 0.16, 0.05, 0.1, 0.14], map logit [0.2, 0.25, 0.11, 0.35, 0.09]])
          (I1 [1, 4])
        = Inr \<lparr>topk_display_suffix = sfx, topk_k = 3, topk_count = 2, correct_in_top_k = 1\<rparr>)
   \<and> (topk_k self \<le> C \<and> length seq_targets \<le> length seqs
        \<and> (\<forall>ts \<in> set seq_targets. length ts = T) \<longrightarrow>
      TopKAccuracy_update topk self (L3 C T seqs) (I2 seq_targets) =
        Inr (self\<lparr>correct_in_top_k := correct_in_top_k self
                     + int (length (filter
                         (\<lambda>(s, ts). \<exists>t \<in> set [0..<T].
                              contains_index (topk (topk_k self) (column s t)) (ts ! t))
                         (zip seqs seq_targets))),
                  topk_count := topk_count self + int (length seq_targets)\<rparr>))
   \<and> (topk_contract topk \<longrightarrow>
        TopKAccuracy_update topk (TopKAccuracy_init sfx 1)
          (L3 2 2 [[[1, 0], [0, 1]], [[1, 0], [0, 1]]]) (I2 [[0, 1], [0, 0]])
        = Inr \<lparr>topk_display_suffix = sfx, topk_k = 1, topk_count = 2, correct_in_top_k = 2\<rparr>
        \<and> top_k_rows topk 1 (L3 2 2 [[[1, 0], [0, 1]], [[1, 0], [0, 1]]]) (I2 [[0, 1], [0, 0]]) = 3
        \<and> length (frames (L3 2 2 [[[1, 0], [0, 1]], [[1, 0], [0, 1]]])) = 4)"
proof (intro conjI impI ballI)
  assume "topk_k self \<le> C \<and> length targets \<le> length rows"
  then show "TopKAccuracy_update topk self (L2 C rows) (I1 targets) =
        Inr (self\<lparr>correct_in_top_k := correct_in_top_k self
                     + top_k_rows topk (topk_k self) (L2 C rows) (I1 targets),
                  topk_count := topk_count self + int (length targets)\<rparr>)"
    by (intro TopKAccuracy_update_rows) simp_all
next
  fix j
  assume a: "topk_contract topk \<and> k \<le> length row" and j: "j \<in> set [0..<length row]"
    and r: "rivals row j < k"
  show "contains_index (topk k row) (int j)"
    using a j r by (intro topk_hit) simp_all
next
  fix j
  assume a: "topk_contract topk \<and> k \<le> length row" and r: "k \<le> higher row j"
  show "\<not> contains_index (topk k row) (int j)"
    using a r by (intro topk_miss) simp_all
next
  show "\<not> contains_index (topk k row) (- 100)"
    by (auto simp: contains_index_def)
next
  assume "topk_contract topk"
  then show "TopKAccuracy_update topk (TopKAccuracy_init sfx 3)
          (L2 5 [map logit [0.55, 0.16, 0.05, 0.1, 0.14], map logit [0.2, 0.25, 0.11, 0.35, 0.09]])
          (I1 [1, 4])
        = Inr \<lparr>topk_display_suffix = sfx, topk_k = 3, topk_count = 2, correct_in_top_k = 1\<rparr>"
    by (rule example_state)
next
  assume "topk_k self \<le> C \<and> length seq_targets \<le> length seqs
        \<and> (\<forall>ts \<in> set seq_targets. length ts = T)"
  then show "TopKAccuracy_update topk self (L3 C T seqs) (I2 seq_targets) =
        Inr (self\<lparr>correct_in_top_k := correct_in_top_k self
                     + int (length (filter
                         (\<lambda>(s, ts). \<exists>t \<in> set [0..<T].
                              contains_index (topk (topk_k self) (column s t)) (ts ! t))
                         (zip seqs seq_targets))),
                  topk_count := topk_count self + int (length seq_targets)\<rparr>)"
    by (intro TopKAccuracy_update_seqs) simp_all
next
  assume c: "topk_contract topk"
  show "TopKAccuracy_update topk (TopKAccuracy_init sfx 1)
          (L3 2 2 [[[1, 0], [0, 1]], [[1, 0], [0, 1]]]) (I2 [[0, 1], [0, 0]])
        = Inr \<lparr>topk_display_suffix = sfx, topk_k = 1, topk_count = 2, correct_in_top_k = 2\<rparr>"
    by (rule sequences_state(1)[OF c])
  show "top_k_rows topk 1 (L3 2 2 [[[1, 0], [0, 1]], [[1, 0], [0, 1]]]) (I2 [[0, 1], [0, 0]]) = 3"
    by (rule sequences_state(2)[OF c])
  show "length (frames (L3 2 2 [[[1, 0], [0, 1]], [[1, 0], [0, 1]]])) = 4"
    by (rule sequences_state(3)[OF c])
qed

theorem TopKAccuracy_update_counts_witness:
  "topk_contract topk_lowest_first
   \<and> topk_k (TopKAccuracy_init ''val'' 2) \<le> 3
   \<and> length [2, - 100, 0 :: int] \<le> length [[1, 5, 3], [4, 1, 2], [0, 7, 9 :: real]]
   \<and> TopKAccuracy_update topk_lowest_first (TopKAccuracy_init ''val'' 2)
        (L2 3 [[1, 5, 3], [4, 1, 2], [0, 7, 9]]) (I1 [2, - 100, 0])
      = Inr \<lparr>topk_display_suffix = ''val'', topk_k = 2, topk_count = 3, correct_in_top_k = 1\<rparr>
   \<and> (2 :: nat) \<le> length [1, 5, 5, 5 :: real]
   \<and> rivals [1, 5, 5, 5] 0 = 3 \<and> higher [1, 5, 5, 5] 0 = 3
   \<and> \<not> contains_index (topk_lowest_first 2 [1, 5, 5, 5]) 0
   \<and> TopKAccuracy_update topk_lowest_first (TopKAccuracy_init ''val'' 3)
        (L2 5 [map logit [0.55, 0.16, 0.05, 0.1, 0.14], map logit [0.2, 0.25, 0.11, 0.35, 0.09]])
        (I1 [1, 4])
      = Inr \<lparr>topk_display_suffix = ''val'', topk_k = 3, topk_count = 2, correct_in_top_k = 1\<rparr>
   \<and> TopKAccuracy_update topk_lowest_first (TopKAccuracy_init ''val'' 1)
        (L3 2 2 [[[1, 0], [0, 1]], [[1, 0], [0, 1]]]) (I2 [[0, 1], [0, 0]])
      = Inr \<lparr>topk_display_suffix = ''val'', topk_k = 1, topk_count = 2, correct_in_top_k = 2\<rparr>"
proof -
  have t: "topk_lowest_first 2 [1, 5, 3] = [1, 2]" "topk_lowest_first 2 [4, 1, 2] = [0, 2]"
    "topk_lowest_first 2 [0, 7, 9] = [2, 1]"
    by (simp_all add: topk_lowest_first_def upt_conv_Cons)
  have r: "rivals [1, 5, 5, 5] 0 = 3" "higher [1, 5, 5, 5] 0 = 3"
    by (simp_all add: rivals_def higher_def upt_conv_Cons)
  have rows: "top_k_rows topk_lowest_first 2 (L2 3 [[1, 5, 3], [4, 1, 2], [0, 7, 9]]) (I1 [2, - 100, 0]) = 1"
    by (simp add: top_k_rows_def t contains_index_def)
  have k: "topk_k (TopKAccuracy_init ''val'' 2) = 2"
    by (simp add: TopKAccuracy_init_def TopKAccuracy_reset_def)
  show ?thesis
    using TopKAccuracy_update_counts
      [of "TopKAccuracy_init ''val'' 2" 3 "[2, - 100, 0]" "[[1, 5, 3], [4, 1, 2], [0, 7, 9]]"
          topk_lowest_first 2 "[1, 5, 5, 5]" "''val''" "[]" "[]" 0]
      topk_lowest_first_contract
    by (simp add: r rows k TopKAccuracy_init_def TopKAccuracy_reset_def)
qed

subsection \<open>Per-category accuracy against scalar accuracy\<close>


lemma argmax_aux_less:
  "best < i \<Longrightarrow> argmax_aux best bv i xs < i + length xs"
proof (induction xs arbitrary: best bv i)
  case Nil
  then show ?case by simp
next
  case (Cons x xs)
  have "argmax_aux i x (Suc i) xs < Suc i + length xs"
    by (rule Cons.IH) simp
  moreover have "argmax_aux best bv (Suc i) xs < Suc i + length xs"
    by (rule Cons.IH) (use Cons.prems in simp)
  ultimately show ?case by simp
qed

lemma argmax_less: "xs \<noteq> [] \<Longrightarrow> argmax xs < length xs"
  using argmax_aux_less[of 0 1] by (cases xs) (auto simp: argmax_def)

lemma sum_list_sum_dim0:
  assumes "\<forall>r \<in> set m. length r = C"
  shows "sum_list (sum_dim0 C m) = (\<Sum>r\<leftarrow>m. sum_list r)"
  using assms
proof (induction m)
  case Nil
  then show ?case by (simp add: sum_dim0_def)
next
  case (Cons r m)
  have "sum_list (sum_dim0 C (r # m))
      = sum_list (map (\<lambda>c. r ! c) [0..<C]) + sum_list (sum_dim0 C m)"
    by (simp add: sum_dim0_def sum_list_addf)
  moreover have "map (\<lambda>c. r ! c) [0..<C] = r"
    using Cons.prems map_nth[of r] by simp
  ultimately show ?case using Cons by simp
qed

lemma length_sum_dim0: "length (sum_dim0 C m) = C"
  by (simp add: sum_dim0_def)

lemma sum_list_one_hot_row:
  assumes "0 \<le> b" "b < int C"
  shows "sum_list (one_hot_row C b) = 1"
proof -
  have "sum_list (one_hot_row C b) = (\<Sum>j \<in> {0..<C}. if j = nat b then 1 else 0)"
    using assms unfolding one_hot_row_def interv_sum_list_conv_sum_set_nat
    by (intro sum.cong) auto
  then show ?thesis using assms by simp
qed

lemma sum_list_one_hot_mul:
  assumes "0 \<le> b" "b < int C"
  shows "sum_list (map2 (*) (one_hot_row C a) (one_hot_row C b)) = (if a = b then 1 else 0)"
proof -
  have "map2 (*) (one_hot_row C a) (one_hot_row C b)
      = map (\<lambda>j. if int j = a \<and> a = b then 1 else 0) [0..<C]"
    unfolding one_hot_row_def by (intro nth_equalityI) auto
  then show ?thesis
    using sum_list_one_hot_row[OF assms] by (auto simp: one_hot_row_def)
qed


lemma unroll_time_ok:
  "shape_ok p t \<Longrightarrow> unroll_time p t = (L2 (classes p) (frames p), I1 (elems t))"
  by (cases p; cases t) auto

lemma length_frames:
  assumes "shape_ok p t"
  shows "length (frames p) = length (elems t)"
proof (cases p; cases t)
  fix C T seqs tss
  assume p: "p = L3 C T seqs" and t: "t = I2 tss"
  have "map length tss = map (\<lambda>ts. T) tss"
    using assms unfolding p t by simp
  then have "sum_list (map length tss) = sum_list (map (\<lambda>ts. T) tss)"
    by (rule arg_cong)
  then have "length (concat tss) = length tss * T"
    by (simp only: length_concat sum_list_triv) simp
  moreover have "length (frames p) = length seqs * T"
    by (simp add: p length_concat comp_def sum_list_triv)
  ultimately show ?thesis using assms by (simp add: p t)
qed (use assms in auto)

lemma frames_length:
  "wf_ltensor p \<Longrightarrow> r \<in> set (frames p) \<Longrightarrow> length r = classes p"
  by (cases p) (auto simp: column_def)

lemma sum_list_indicator:
  "(\<Sum>x\<leftarrow>xs. if P x then 1 else 0) = int (length (filter P xs))"
  by (induction xs) auto

lemma sum_list_map2_add:
  "length a = length b \<Longrightarrow> sum_list (map2 (+) a b) = sum_list a + sum_list (b :: int list)"
  by (induction a b rule: list_induct2) auto

lemma iadd_vec_ok:
  assumes "length m = C" and "acc = None \<or> (\<exists>a. acc = Some a \<and> length a = C)"
  shows "\<exists>v. iadd_vec acc m = Inr v \<and> length v = C
           \<and> sum_list v = (case acc of None \<Rightarrow> 0 | Some a \<Rightarrow> sum_list a) + sum_list m"
  using assms by (auto simp: iadd_vec_def sum_list_map2_add)

lemma length_filter_zip_snd:
  "length xs = length ys \<Longrightarrow>
   length (filter (\<lambda>(x, y). P y) (zip xs ys)) = length (filter P ys)"
  by (induction xs ys rule: list_induct2) auto


lemma CategoricalAccuracy_update_ok:
  assumes v: "valid_batch C p t"
    and it: "totals self = None \<or> (\<exists>a. totals self = Some a \<and> length a = C)"
    and ic: "counts self = None \<or> (\<exists>a. counts self = Some a \<and> length a = C)"
  shows "\<exists>tot cnt. CategoricalAccuracy_update self p t
             = Inr (self\<lparr>totals := Some tot, counts := Some cnt\<rparr>)
           \<and> length tot = C \<and> length cnt = C
           \<and> sum_list tot = (case totals self of None \<Rightarrow> 0 | Some a \<Rightarrow> sum_list a)
                              + correct_rows p t
           \<and> sum_list cnt = (case counts self of None \<Rightarrow> 0 | Some a \<Rightarrow> sum_list a)
                              + kept_rows t"
proof -
  have ok: "shape_ok p t" and wf: "wf_ltensor p" and cl: "classes p = C"
    and tv: "\<forall>tg \<in> set (elems t). tg = - 100 \<or> (0 \<le> tg \<and> tg < int C)"
    using v by (auto simp: valid_batch_def)
  have C: "0 < C" using ok cl by (cases p; cases t) auto
  have len: "length (frames p) = length (elems t)" by (rule length_frames[OF ok])
  define kept where "kept = filter (\<lambda>(r, tg). tg \<noteq> - 100) (zip (frames p) (elems t))"
  define preds where "preds = map (\<lambda>r. int (argmax r)) (map fst kept)"
  define tgts where "tgts = map snd kept"
  have kept_fr: "r \<in> set (frames p)" and kept_tg: "tg \<in> set (elems t)" and kept_ne: "tg \<noteq> - 100"
    if "(r, tg) \<in> set kept" for r tg
    using that by (auto simp: kept_def dest: set_zip_leftD set_zip_rightD)
  have pv: "0 \<le> int (argmax r) \<and> int (argmax r) < int C" if "(r, tg) \<in> set kept" for r tg
  proof -
    have "length r = C" using frames_length[OF wf kept_fr[OF that]] cl by simp
    then have "r \<noteq> []" using C by auto
    from argmax_less[OF this] show ?thesis using \<open>length r = C\<close> by simp
  qed
  have gv: "0 \<le> tg \<and> tg < int C" if "(r, tg) \<in> set kept" for r tg
    using tv kept_tg[OF that] kept_ne[OF that] by auto
  have am: "argmax_dim1 (L2 C (map fst kept)) = Inr (I1 preds)"
    using C by (simp add: preds_def)
  have oh1: "one_hot preds C = Inr (map (one_hot_row C) preds)"
    unfolding one_hot_def preds_def using pv by force
  have oh2: "one_hot tgts C = Inr (map (one_hot_row C) tgts)"
    unfolding one_hot_def tgts_def using gv by force
  let ?M1 = "sum_dim0 C (mul2 (map (one_hot_row C) preds) (map (one_hot_row C) tgts))"
  let ?M2 = "sum_dim0 C (map (one_hot_row C) tgts)"
  have mul: "mul2 (map (one_hot_row C) preds) (map (one_hot_row C) tgts)
      = map (\<lambda>(r, tg). map2 (*) (one_hot_row C (int (argmax r))) (one_hot_row C tg)) kept"
    unfolding mul2_def preds_def tgts_def
    by (intro nth_equalityI) (auto simp: split_beta)
  have "sum_list ?M1 = (\<Sum>(r, tg)\<leftarrow>kept. if int (argmax r) = tg then 1 else 0)"
  proof -
    have rows: "\<forall>r \<in> set (map (\<lambda>(r, tg). map2 (*) (one_hot_row C (int (argmax r)))
                                        (one_hot_row C tg)) kept). length r = C"
      by (auto simp: one_hot_row_def)
    have "sum_list ?M1
        = (\<Sum>(r, tg)\<leftarrow>kept. sum_list (map2 (*) (one_hot_row C (int (argmax r))) (one_hot_row C tg)))"
      unfolding mul sum_list_sum_dim0[OF rows] map_map
      by (rule arg_cong[where f = sum_list], rule map_cong) auto
    also have "\<dots> = (\<Sum>(r, tg)\<leftarrow>kept. if int (argmax r) = tg then 1 else 0)"
      by (intro arg_cong[where f = sum_list] map_cong refl)
         (use gv in \<open>auto simp: sum_list_one_hot_mul\<close>)
    finally show ?thesis .
  qed
  also have "\<dots> = int (length (filter (\<lambda>(r, tg). int (argmax r) = tg) kept))"
    using sum_list_indicator[of "\<lambda>(r, tg). int (argmax r) = tg" kept]
    by (simp add: case_prod_unfold)
  also have "\<dots> = correct_rows p t"
    unfolding kept_def correct_rows_def
    by (simp add: case_prod_unfold conj_commute)
  finally have s1: "sum_list ?M1 = correct_rows p t" .
  have rows2: "\<forall>r \<in> set (map (one_hot_row C) tgts). length r = C"
    by (auto simp: one_hot_row_def)
  have "sum_list ?M2 = (\<Sum>tg\<leftarrow>tgts. sum_list (one_hot_row C tg))"
    unfolding sum_list_sum_dim0[OF rows2] by (simp add: comp_def)
  also have "\<dots> = (\<Sum>tg\<leftarrow>tgts. 1)"
    by (intro arg_cong[where f = sum_list] map_cong refl)
       (use gv in \<open>auto simp: tgts_def sum_list_one_hot_row\<close>)
  also have "\<dots> = int (length kept)"
    by (simp add: sum_list_triv tgts_def comp_def)
  also have "\<dots> = kept_rows t"
    unfolding kept_def kept_rows_def using length_filter_zip_snd[OF len] by simp
  finally have s2: "sum_list ?M2 = kept_rows t" .
  obtain tot where tot: "iadd_vec (totals self) ?M1 = Inr tot" "length tot = C"
    "sum_list tot = (case totals self of None \<Rightarrow> 0 | Some a \<Rightarrow> sum_list a) + sum_list ?M1"
    using iadd_vec_ok[OF length_sum_dim0 it] by blast
  obtain cnt where cnt: "iadd_vec (counts self) ?M2 = Inr cnt" "length cnt = C"
    "sum_list cnt = (case counts self of None \<Rightarrow> 0 | Some a \<Rightarrow> sum_list a) + sum_list ?M2"
    using iadd_vec_ok[OF length_sum_dim0 ic] by blast
  have "CategoricalAccuracy_update self p t = Inr (self\<lparr>totals := Some tot, counts := Some cnt\<rparr>)"
    unfolding CategoricalAccuracy_update_def unroll_time_ok[OF ok] cl
    using len am oh1 oh2 tot(1) cnt(1)
    by (simp add: Let_def kept_def[symmetric] preds_def[symmetric] tgts_def[symmetric])
  then show ?thesis
    using tot cnt s1 s2 by auto
qed


lemma CategoricalAccuracy_updates_ok:
  assumes "bs \<noteq> []" and "\<forall>(p, t) \<in> set bs. valid_batch C p t"
    and "totals self = None \<or> (\<exists>a. totals self = Some a \<and> length a = C)"
    and "counts self = None \<or> (\<exists>a. counts self = Some a \<and> length a = C)"
  shows "\<exists>c tot cnt. CategoricalAccuracy_updates self bs = Inr c
           \<and> totals c = Some tot \<and> counts c = Some cnt
           \<and> sum_list tot = (case totals self of None \<Rightarrow> 0 | Some a \<Rightarrow> sum_list a)
                              + (\<Sum>(p, t)\<leftarrow>bs. correct_rows p t)
           \<and> sum_list cnt = (case counts self of None \<Rightarrow> 0 | Some a \<Rightarrow> sum_list a)
                              + (\<Sum>(p, t)\<leftarrow>bs. kept_rows t)"
  using assms
proof (induction bs arbitrary: self)
  case Nil
  then show ?case by simp
next
  case (Cons b bs)
  obtain p t where b: "b = (p, t)" by (cases b)
  have v: "valid_batch C p t" using Cons.prems(2) by (simp add: b)
  obtain tot cnt where u:
    "CategoricalAccuracy_update self p t = Inr (self\<lparr>totals := Some tot, counts := Some cnt\<rparr>)"
    "length tot = C" "length cnt = C"
    "sum_list tot = (case totals self of None \<Rightarrow> 0 | Some a \<Rightarrow> sum_list a) + correct_rows p t"
    "sum_list cnt = (case counts self of None \<Rightarrow> 0 | Some a \<Rightarrow> sum_list a) + kept_rows t"
    using CategoricalAccuracy_update_ok[OF v Cons.prems(3) Cons.prems(4)] by blast
  let ?s = "self\<lparr>totals := Some tot, counts := Some cnt\<rparr>"
  show ?case
  proof (cases "bs = []")
    case True
    then show ?thesis using u by (simp add: b)
  next
    case False
    have "\<forall>(p, t) \<in> set bs. valid_batch C p t" using Cons.prems(2) by simp
    from Cons.IH[OF False this, of ?s] u
    show ?thesis by (auto simp: b)
  qed
qed

text \<open>
  C5. A \<open>CategoricalAccuracy\<close> and an \<open>Accuracy\<close> fed the same non-empty stream of
  batches of the data model (one class count, targets a class index or \<open>-100\<close>) agree:
  the per-class true positives sum to \<open>true_positives\<close> and the per-class counts sum
  to \<open>count\<close>.
\<close>

theorem CategoricalAccuracy_sums_agree:
  "bs \<noteq> [] \<and> (\<forall>(p, t) \<in> set bs. valid_batch C p t) \<longrightarrow>
     (\<exists>a c tot cnt.
        Accuracy_updates (Accuracy_init sfx) bs = Inr a
      \<and> CategoricalAccuracy_updates (CategoricalAccuracy_init sfx') bs = Inr c
      \<and> totals c = Some tot \<and> counts c = Some cnt
      \<and> sum_list tot = num_value (acc_true_positives a)
      \<and> sum_list cnt = num_value (acc_count a))"
proof
  assume a: "bs \<noteq> [] \<and> (\<forall>(p, t) \<in> set bs. valid_batch C p t)"
  then have ok: "\<forall>(p, t) \<in> set bs. shape_ok p t"
    by (auto simp: valid_batch_def)
  have i: "totals (CategoricalAccuracy_init sfx') = None" "counts (CategoricalAccuracy_init sfx') = None"
    by (simp_all add: CategoricalAccuracy_init_def CategoricalAccuracy_reset_def)
  obtain c tot cnt where c:
    "CategoricalAccuracy_updates (CategoricalAccuracy_init sfx') bs = Inr c"
    "totals c = Some tot" "counts c = Some cnt"
    "sum_list tot = (\<Sum>(p, t)\<leftarrow>bs. correct_rows p t)"
    "sum_list cnt = (\<Sum>(p, t)\<leftarrow>bs. kept_rows t)"
    using CategoricalAccuracy_updates_ok[of bs C "CategoricalAccuracy_init sfx'"] a
    by (auto simp: i)
  show "\<exists>a c tot cnt.
        Accuracy_updates (Accuracy_init sfx) bs = Inr a
      \<and> CategoricalAccuracy_updates (CategoricalAccuracy_init sfx') bs = Inr c
      \<and> totals c = Some tot \<and> counts c = Some cnt
      \<and> sum_list tot = num_value (acc_true_positives a)
      \<and> sum_list cnt = num_value (acc_count a)"
    using a c Accuracy_updates_ok[OF _ ok, of "Accuracy_init sfx"]
    by (simp add: Accuracy_init_def Accuracy_reset_def)
qed

theorem CategoricalAccuracy_sums_agree_witness:
  "[(L2 2 [[1, 9], [5, 2], [1, 2]], I1 [1, 1, - 100]),
    (L3 2 2 [[[1, 0], [0, 1]]], I2 [[0, - 100]])] \<noteq> []
   \<and> valid_batch 2 (L2 2 [[1, 9], [5, 2], [1, 2]]) (I1 [1, 1, - 100])
   \<and> valid_batch 2 (L3 2 2 [[[1, 0], [0, 1]]]) (I2 [[0, - 100]])
   \<and> CategoricalAccuracy_updates (CategoricalAccuracy_init ''val'')
        [(L2 2 [[1, 9], [5, 2], [1, 2]], I1 [1, 1, - 100]),
         (L3 2 2 [[[1, 0], [0, 1]]], I2 [[0, - 100]])]
      = Inr \<lparr>cat_display_suffix = ''val'', totals = Some [1, 1], counts = Some [1, 2]\<rparr>
   \<and> (\<exists>a. Accuracy_updates (Accuracy_init ''val'')
          [(L2 2 [[1, 9], [5, 2], [1, 2]], I1 [1, 1, - 100]),
           (L3 2 2 [[[1, 0], [0, 1]]], I2 [[0, - 100]])] = Inr a
        \<and> num_value (acc_true_positives a) = 2 \<and> num_value (acc_count a) = 3)"
proof -
  have v1: "valid_batch 2 (L2 2 [[1, 9], [5, 2], [1, 2]]) (I1 [1, 1, - 100])"
    by code_simp
  have v2: "valid_batch 2 (L3 2 2 [[[1, 0], [0, 1]]]) (I2 [[0, - 100]])"
    by code_simp
  have c: "CategoricalAccuracy_updates (CategoricalAccuracy_init ''val'')
        [(L2 2 [[1, 9], [5, 2], [1, 2]], I1 [1, 1, - 100]),
         (L3 2 2 [[[1, 0], [0, 1]]], I2 [[0, - 100]])]
      = Inr \<lparr>cat_display_suffix = ''val'', totals = Some [1, 1], counts = Some [1, 2]\<rparr>"
    by code_simp
  show ?thesis
    using CategoricalAccuracy_sums_agree
      [of "[(L2 2 [[1, 9], [5, 2], [1, 2]], I1 [1, 1, - 100]),
            (L3 2 2 [[[1, 0], [0, 1]]], I2 [[0, - 100]])]" 2 "''val''" "''val''"]
      v1 v2 c
    by auto
qed

text \<open>
  The class count has to stay the same along the stream: a later batch with a single
  class is broadcast by the in-place addition onto every class of the running vectors.
\<close>

lemma CategoricalAccuracy_broadcast_example:
  "CategoricalAccuracy_updates (CategoricalAccuracy_init ''val'')
     [(L2 2 [[1, 0]], I1 [0]), (L2 1 [[5]], I1 [0])]
   = Inr \<lparr>cat_display_suffix = ''val'', totals = Some [2, 1], counts = Some [2, 1]\<rparr>"
  by code_simp


section \<open>Properties of the Jensen-Shannon divergence\<close>















lemma jsd_example_disjoint:
  "jensenShannonDivergence (D1 [1, 0]) (D1 [0, 1]) False = Inr (Fin (sqrt (ln 2)))"
  by (simp add: jsd_row_def kl_div_def xlogy_def torch_log_def fl_sub_def torch_sqrt_def
      ln_div)

subsection \<open>Rounding\<close>



lemma powi2_less_imp: "(2::real) powi a < 2 powi b \<Longrightarrow> a < b"
proof (rule ccontr)
  assume l: "(2::real) powi a < 2 powi b" and "\<not> a < b"
  then have "b \<le> a" by simp
  then have "(2::real) powi b \<le> 2 powi a" by (intro power_int_increasing) simp_all
  then show False using l by simp
qed



lemma rne_near: "of_int n - 1 / 2 < y \<Longrightarrow> y < of_int n + 1 / 2 \<Longrightarrow> rne y = n"
proof -
  assume a: "of_int n - 1 / 2 < y" "y < of_int n + 1 / 2"
  show ?thesis
  proof (cases "of_int n \<le> y")
    case True
    then have "\<lfloor>y\<rfloor> = n" using a by linarith
    then show ?thesis using a True by (simp add: rne_def Let_def)
  next
    case False
    then have "\<lfloor>y\<rfloor> = n - 1" using a by linarith
    then show ?thesis using a False by (simp add: rne_def Let_def)
  qed
qed


lemma exponent32_finite:
  "finite (insert (- 126) {e \<in> {- 126 .. 127}. 2 powi e \<le> \<bar>x :: real\<bar>})"
  by (rule finite.insertI, rule finite_subset[of _ "{- 126 .. 127}"]) auto

lemma exponent32_range: "- 126 \<le> exponent32 x" "exponent32 x \<le> 127"
proof -
  let ?S = "insert (- 126) {e \<in> {- 126 .. 127}. 2 powi e \<le> \<bar>x\<bar>}"
  have "exponent32 x \<in> ?S"
    unfolding exponent32_def by (rule Max_in[OF exponent32_finite]) simp
  then show "- 126 \<le> exponent32 x" "exponent32 x \<le> 127" by auto
qed



lemma exponent32_subnormal:
  assumes "\<bar>x\<bar> < 2 powi (- 126)"
  shows "exponent32 x = - 126"
  unfolding exponent32_def
proof (rule Max_eqI[OF exponent32_finite])
  show "- 126 \<in> insert (- 126) {e \<in> {- 126 .. 127}. 2 powi e \<le> \<bar>x\<bar>}" by simp
  fix y assume "y \<in> insert (- 126) {e \<in> {- 126 .. 127}. 2 powi e \<le> \<bar>x\<bar>}"
  then consider "y = - 126" | "2 powi y \<le> \<bar>x\<bar>" by auto
  then show "y \<le> - 126"
  proof cases
    case 1
    then show ?thesis by simp
  next
    case 2
    then have "(2::real) powi y < 2 powi (- 126)" using assms by simp
    then have "y < - 126" by (rule powi2_less_imp)
    then show ?thesis by simp
  qed
qed




lemma binary32_not_nan: "binary32 x \<noteq> NaN"
  by (simp add: binary32_def Let_def)







subsection \<open>Symmetry and sign under rounding\<close>












subsection \<open>A pair of close inputs with a negative sum under the root\<close>










subsection \<open>Exact arithmetic as a rounding\<close>


















lemma ln_quarters:
  "ln (1 / 4 :: real) = - 2 * ln 2" "ln (3 / 4 :: real) = ln 3 - 2 * ln 2"
  "ln (1 / 2 :: real) = - ln 2"
proof -
  have "ln (4 :: real) = ln (2 ^ 2)" by simp
  also have "\<dots> = 2 * ln 2" using ln_realpow[of 2 2] by simp
  finally have 4: "ln (4 :: real) = 2 * ln 2" .
  show "ln (1 / 4 :: real) = - 2 * ln 2" using 4 by (simp add: ln_div)
  show "ln (3 / 4 :: real) = ln 3 - 2 * ln 2" using 4 by (simp add: ln_div)
  show "ln (1 / 2 :: real) = - ln 2" by (simp add: ln_div)
qed

lemma jsd_row_logits_swapped:
  "jsd_row True [a, b] [b, a] = torch_sqrt ((exp b - exp a) * (b - a) / 2)"
  unfolding jsd_row_def Let_def kl_div_log_target_def
  by (rule arg_cong[where f = torch_sqrt]) (simp add: field_simps)

lemma kl_quarters:
  "kl_divergence [1 / 4, 3 / 4] [1 / 2, 1 / 2] = 3 / 4 * ln 3 - ln 2"
  "kl_divergence [3 / 4, 1 / 4] [1 / 2, 1 / 2] = 3 / 4 * ln 3 - ln 2"
  unfolding kl_divergence_def
  by (simp_all only: zip_Cons_Cons zip_Nil list.map prod.case sum_list.Cons sum_list.Nil
      ln_quarters) argo+

lemma kl_div_quarters:
  "nan_to_num (kl_div (torch_log (1 / 2)) (1 / 4)) = 1 / 4 * (ln (1 / 4) - ln (1 / 2))"
  "nan_to_num (kl_div (torch_log (1 / 2)) (3 / 4)) = 3 / 4 * (ln (3 / 4) - ln (1 / 2))"
  by (simp_all add: kl_div_def xlogy_def torch_log_def fl_sub_def algebra_simps
      del: ln_divide_pos)

text \<open>
  C1. In log-space mode the mixture is the mean of the log-space inputs themselves,
  not of the distributions they encode. On the logarithms of \<open>(1/4, 3/4)\<close> and
  \<open>(3/4, 1/4)\<close> the function returns \<open>sqrt (ln 3 / 4)\<close>, while the Jensen-Shannon
  divergence with the mixture taken in probability space, which the probability mode
  returns on the same two distributions, is \<open>sqrt (3/4 * ln 3 - ln 2)\<close>.
\<close>

theorem jsd_logits_mean_in_log_space:
  "jensenShannonDivergence (D1 [ln (1 / 4), ln (3 / 4)]) (D1 [ln (3 / 4), ln (1 / 4)]) True
     = Inr (Fin (sqrt (ln 3 / 4)))
   \<and> jsd_probability_space [ln (1 / 4), ln (3 / 4)] [ln (3 / 4), ln (1 / 4)]
     = sqrt (3 / 4 * ln 3 - ln 2)
   \<and> jensenShannonDivergence (D1 [1 / 4, 3 / 4]) (D1 [3 / 4, 1 / 4]) False
     = Inr (Fin (sqrt (3 / 4 * ln 3 - ln 2)))
   \<and> sqrt (ln 3 / 4) \<noteq> sqrt (3 / 4 * ln 3 - ln 2)"
proof (intro conjI)
  have "exp (ln (3 / 4 :: real)) - exp (ln (1 / 4)) = 1 / 2"
    by simp
  moreover have "ln (3 / 4 :: real) - ln (1 / 4) = ln 3"
    unfolding ln_quarters by argo
  ultimately have "(exp (ln (3 / 4)) - exp (ln (1 / 4))) * (ln (3 / 4) - ln (1 / 4)) / 2
      = ln 3 / (4 :: real)"
    by (simp only:)
  moreover have "\<not> ln (3 :: real) / 4 < 0" by simp
  ultimately have "jsd_row True [ln (1 / 4), ln (3 / 4)] [ln (3 / 4), ln (1 / 4)]
      = Fin (sqrt (ln 3 / 4))"
    by (simp only: jsd_row_logits_swapped torch_sqrt_def if_False)
  then show "jensenShannonDivergence (D1 [ln (1 / 4), ln (3 / 4)]) (D1 [ln (3 / 4), ln (1 / 4)]) True
     = Inr (Fin (sqrt (ln 3 / 4)))"
    by (simp only: jensenShannonDivergence.simps list.size simp_thms if_True)
next
  have "map exp [ln (1 / 4), ln (3 / 4 :: real)] = [1 / 4, 3 / 4]"
    "map exp [ln (3 / 4), ln (1 / 4 :: real)] = [3 / 4, 1 / 4]"
    "map2 (\<lambda>a b. (a + b) / 2) [1 / 4, 3 / 4 :: real] [3 / 4, 1 / 4] = [1 / 2, 1 / 2]"
    by simp_all
  then have "jsd_probability_space [ln (1 / 4), ln (3 / 4)] [ln (3 / 4), ln (1 / 4)]
      = sqrt (((3 / 4 * ln 3 - ln 2) + (3 / 4 * ln 3 - ln 2)) / 2)"
    unfolding jsd_probability_space_def Let_def by (simp only: kl_quarters)
  also have "((3 / 4 * ln 3 - ln 2) + (3 / 4 * ln 3 - ln 2)) / 2 = 3 / 4 * ln 3 - ln (2 :: real)"
    by argo
  finally show "jsd_probability_space [ln (1 / 4), ln (3 / 4)] [ln (3 / 4), ln (1 / 4)]
     = sqrt (3 / 4 * ln 3 - ln 2)" .
next
  have ge: "\<not> 3 / 4 * ln 3 - ln (2 :: real) < 0"
  proof -
    have "ln (16 :: real) \<le> ln 27" by simp
    moreover have "ln (16 :: real) = 4 * ln 2"
      using ln_realpow[of 2 4] by simp
    moreover have "ln (27 :: real) = 3 * ln 3"
      using ln_realpow[of 3 3] by simp
    ultimately show ?thesis by argo
  qed
  have m: "map2 (\<lambda>a b. (a + b) / 2) [1 / 4, 3 / 4 :: real] [3 / 4, 1 / 4] = [1 / 2, 1 / 2]"
    by simp
  have s: "1 / 4 * (ln (1 / 4) - ln (1 / 2)) + (3 / 4 * (ln (3 / 4) - ln (1 / 2)) + 0)
        + (3 / 4 * (ln (3 / 4) - ln (1 / 2)) + (1 / 4 * (ln (1 / 4) - ln (1 / 2)) + 0))
      = 2 * (3 / 4 * ln 3 - ln (2 :: real))"
    unfolding ln_quarters by argo
  have "jsd_row False [1 / 4, 3 / 4] [3 / 4, 1 / 4]
      = torch_sqrt ((2 * (3 / 4 * ln 3 - ln 2)) / 2)"
    unfolding jsd_row_def Let_def m
    by (simp only: simp_thms if_True zip_Cons_Cons zip_Nil list.map prod.case
        sum_list.Cons sum_list.Nil kl_div_quarters s)
  also have "(2 * (3 / 4 * ln 3 - ln 2)) / 2 = 3 / 4 * ln 3 - ln (2 :: real)"
    by argo
  finally have "jsd_row False [1 / 4, 3 / 4] [3 / 4, 1 / 4] = Fin (sqrt (3 / 4 * ln 3 - ln 2))"
    using ge by (simp only: torch_sqrt_def if_False)
  then show "jensenShannonDivergence (D1 [1 / 4, 3 / 4]) (D1 [3 / 4, 1 / 4]) False
     = Inr (Fin (sqrt (3 / 4 * ln 3 - ln 2)))"
    by (simp only: jensenShannonDivergence.simps list.size simp_thms if_True)
next
  have "ln (3 :: real) \<noteq> ln 4" by simp
  moreover have "ln (4 :: real) = 2 * ln 2"
    using ln_realpow[of 2 2] by simp
  ultimately have "ln (3 :: real) / 4 \<noteq> 3 / 4 * ln 3 - ln 2" by argo
  then show "sqrt (ln 3 / 4) \<noteq> sqrt (3 / 4 * ln 3 - ln 2)"
    by (simp only: real_sqrt_eq_iff simp_thms)
qed

section \<open>Properties of the CTC decoding backend\<close>


lemma py_nth_prev:
  "0 < t \<Longrightarrow> py_nth xs (int t - 1) = xs ! (t - 1)"
  "xs \<noteq> [] \<Longrightarrow> py_nth xs (int 0 - 1) = xs ! (length xs - 1)"
  by (auto simp: py_nth_def nat_diff_distrib' int_ops)

lemma py_nth_prev_mem:
  assumes "t < length xs"
  shows "py_nth xs (int t - 1) \<in> set xs"
proof (cases "t = 0")
  case True
  then show ?thesis
    using assms py_nth_prev(2)[of xs] nth_mem[of "length xs - 1" xs] by auto
next
  case False
  then show ?thesis using assms py_nth_prev(1)[of t xs] by simp
qed

lemma nth_update_if:
  "xs[i := y] ! j = (if i = j \<and> i < length xs then y else xs ! j)"
  by (cases "i < length xs") (auto simp: nth_list_update list_update_beyond)

lemma row_step_frame:
  assumes "u \<noteq> t"
  shows "fst (row_step t st) ! u = fst st ! u"
    and "snd (row_step t st) ! c ! u = snd st ! c ! u"
  using assms by (cases st; simp add: row_step_def nth_update_if)+

lemma fold_row_step_frame:
  assumes "u \<notin> set ts"
  shows "fst (fold row_step ts st) ! u = fst st ! u"
    and "snd (fold row_step ts st) ! c ! u = snd st ! c ! u"
  using assms by (induction ts arbitrary: st) (simp_all add: row_step_frame)

lemma row_step_ok:
  assumes "row_ok C T st" and "t < T"
  shows "row_ok C T (row_step t st)"
proof -
  obtain pr sq where st: "st = (pr, sq)" by (cases st)
  have len: "length pr = T" "length sq = C" and ch: "\<forall>ch \<in> set sq. length ch = T"
    and bd: "\<forall>x \<in> set pr. x < C"
    using assms(1) by (simp_all add: row_ok_def st)
  let ?p = "py_nth pr (int t - 1)"
  have pm: "?p \<in> set pr" using py_nth_prev_mem[of t pr] assms(2) len by simp
  then have pC: "?p < C" using bd by blast
  have "\<forall>x \<in> set (pr[t := ?p]). x < C"
    using set_update_subset_insert[of pr t ?p] bd pC by auto
  moreover have "\<forall>ch \<in> set (sq[?p := (sq ! ?p)[t := sq ! BLANK ! t]]). length ch = T"
  proof
    fix ch assume "ch \<in> set (sq[?p := (sq ! ?p)[t := sq ! BLANK ! t]])"
    then have "ch = (sq ! ?p)[t := sq ! BLANK ! t] \<or> ch \<in> set sq"
      using set_update_subset_insert[of sq ?p] by auto
    moreover have "length (sq ! ?p) = T" using ch pC len by simp
    ultimately show "length ch = T" using ch by auto
  qed
  ultimately show ?thesis
    using len by (simp add: row_ok_def st row_step_def)
qed

lemma fold_row_step_ok:
  assumes "row_ok C T st" and "\<forall>t \<in> set ts. t < T"
  shows "row_ok C T (fold row_step ts st)"
  using assms by (induction ts arbitrary: st) (simp_all add: row_step_ok)

lemma row_step_effect:
  assumes "row_ok C T st" and "t < T"
  shows "fst (row_step t st) ! t = py_nth (fst st) (int t - 1)"
    and "snd (row_step t st) ! py_nth (fst st) (int t - 1) ! t = snd st ! BLANK ! t"
proof -
  obtain pr sq where st: "st = (pr, sq)" by (cases st)
  have len: "length pr = T" "length sq = C" and ch: "\<forall>ch \<in> set sq. length ch = T"
    and bd: "\<forall>x \<in> set pr. x < C"
    using assms(1) by (simp_all add: row_ok_def st)
  let ?p = "py_nth pr (int t - 1)"
  have "?p \<in> set pr" using py_nth_prev_mem[of t pr] assms(2) len by simp
  then have pC: "?p < C" using bd by blast
  then have "length (sq ! ?p) = T" using ch len by simp
  then show "fst (row_step t st) ! t = py_nth (fst st) (int t - 1)"
    and "snd (row_step t st) ! py_nth (fst st) (int t - 1) ! t = snd st ! BLANK ! t"
    using pC len assms(2) by (simp_all add: st row_step_def)
qed

lemma backend_step_row:
  "backend_step (b, t) (P, L) =
     (P[b := fst (row_step t (P ! b, L ! b))], L[b := snd (row_step t (P ! b, L ! b))])"
  by (simp add: backend_step_def row_step_def Let_def)

lemma fold_backend_step_row:
  assumes "b < length P" "b < length L"
  shows "fold backend_step (map (\<lambda>t. (b, t)) ts) (P, L) =
     (P[b := fst (fold row_step ts (P ! b, L ! b))], L[b := snd (fold row_step ts (P ! b, L ! b))])"
  using assms
proof (induction ts arbitrary: P L)
  case Nil
  then show ?case by simp
next
  case (Cons t ts)
  let ?r = "row_step t (P ! b, L ! b)"
  have "fold backend_step (map (\<lambda>t. (b, t)) (t # ts)) (P, L)
      = fold backend_step (map (\<lambda>t. (b, t)) ts) (P[b := fst ?r], L[b := snd ?r])"
    by (simp add: backend_step_row)
  also have "\<dots> = ((P[b := fst ?r])[b := fst (fold row_step ts ?r)],
                    (L[b := snd ?r])[b := snd (fold row_step ts ?r)])"
    using Cons.IH[of "P[b := fst ?r]" "L[b := snd ?r]"] Cons.prems by simp
  finally show ?case by simp
qed

lemma fold_backend_step_rows:
  assumes "length P = length L" and "n \<le> length P"
  shows "fold backend_step (concat (map (\<lambda>b. map (\<lambda>t. (b, t)) (f b)) [0..<n])) (P, L) =
     (map (\<lambda>b. if b < n then fst (fold row_step (f b) (P ! b, L ! b)) else P ! b) [0..<length P],
      map (\<lambda>b. if b < n then snd (fold row_step (f b) (P ! b, L ! b)) else L ! b) [0..<length L])"
  using assms(2)
proof (induction n)
  case 0
  show ?case by (simp add: map_nth)
next
  case (Suc n)
  let ?Pn = "map (\<lambda>b. if b < n then fst (fold row_step (f b) (P ! b, L ! b)) else P ! b) [0..<length P]"
  let ?Ln = "map (\<lambda>b. if b < n then snd (fold row_step (f b) (P ! b, L ! b)) else L ! b) [0..<length L]"
  have n: "n < length P" "n < length L" using Suc.prems assms(1) by simp_all
  have Pn: "?Pn ! n = P ! n" and Ln: "?Ln ! n = L ! n" using n by simp_all
  have "fold backend_step (concat (map (\<lambda>b. map (\<lambda>t. (b, t)) (f b)) [0..<Suc n])) (P, L)
      = fold backend_step (map (\<lambda>t. (n, t)) (f n)) (?Pn, ?Ln)"
    using Suc.IH n by simp
  also have "\<dots> = (?Pn[n := fst (fold row_step (f n) (P ! n, L ! n))],
                    ?Ln[n := snd (fold row_step (f n) (P ! n, L ! n))])"
    using fold_backend_step_row[of n ?Pn ?Ln "f n"] n unfolding Pn Ln by simp
  also have "?Pn[n := fst (fold row_step (f n) (P ! n, L ! n))]
      = map (\<lambda>b. if b < Suc n then fst (fold row_step (f b) (P ! b, L ! b)) else P ! b) [0..<length P]"
    using n by (intro nth_equalityI) (auto simp: nth_list_update less_Suc_eq)
  also have "?Ln[n := snd (fold row_step (f n) (P ! n, L ! n))]
      = map (\<lambda>b. if b < Suc n then snd (fold row_step (f b) (P ! b, L ! b)) else L ! b) [0..<length L]"
    using n by (intro nth_equalityI) (auto simp: nth_list_update less_Suc_eq)
  finally show ?case .
qed

lemma backend_state_rows:
  assumes "0 < C"
  shows "backend_state (L3 C T seqs) =
     Inr (map (\<lambda>sq. fst (row_run T sq)) seqs, map (\<lambda>sq. snd (row_run T sq)) seqs)"
proof -
  let ?P = "map (\<lambda>s. map (\<lambda>t. argmax (column s t)) [0..<T]) seqs"
  have "fold backend_step (argwhere_blank ?P) (?P, seqs)
      = (map (\<lambda>b. if b < length ?P then fst (fold row_step (blank_times (?P ! b)) (?P ! b, seqs ! b))
                   else ?P ! b) [0..<length ?P],
         map (\<lambda>b. if b < length ?P then snd (fold row_step (blank_times (?P ! b)) (?P ! b, seqs ! b))
                   else seqs ! b) [0..<length seqs])"
    unfolding argwhere_blank_def
    by (rule fold_backend_step_rows) simp_all
  also have "\<dots> = (map (\<lambda>sq. fst (row_run T sq)) seqs, map (\<lambda>sq. snd (row_run T sq)) seqs)"
    by (auto intro!: nth_equalityI simp: row_run_def row_predictions_def)
  finally show ?thesis
    using assms by (simp add: Let_def)
qed

lemma row_predictions_ok:
  assumes "length sq = C" "\<forall>ch \<in> set sq. length ch = T" "0 < C"
  shows "row_ok C T (row_predictions T sq, sq)"
proof -
  have "argmax (column sq t) < C" for t
    using argmax_less[of "column sq t"] assms(1,3) by (auto simp: column_def)
  then show ?thesis
    using assms by (auto simp: row_ok_def row_predictions_def)
qed

lemma row_run_ok:
  assumes "length sq = C" "\<forall>ch \<in> set sq. length ch = T" "0 < C"
  shows "row_ok C T (row_run T sq)"
  unfolding row_run_def
  by (rule fold_row_step_ok[OF row_predictions_ok[OF assms]])
     (auto simp: blank_times_def row_predictions_def)

lemma row_run_blank:
  assumes wf: "length sq = C" "\<forall>ch \<in> set sq. length ch = T" "0 < C"
    and t: "t < T" and bl: "argmax (column sq t) = BLANK"
  shows "fst (row_run T sq) ! t
           = (if t = 0 then row_predictions T sq ! (T - 1) else fst (row_run T sq) ! (t - 1))"
    and "snd (row_run T sq) ! (fst (row_run T sq) ! t) ! t = sq ! BLANK ! t"
    and "fst (row_run T sq) ! t < C"
proof -
  let ?pr0 = "row_predictions T sq"
  let ?P = "\<lambda>u. ?pr0 ! u = BLANK"
  let ?before = "filter ?P [0..<t]"
  let ?after = "filter ?P [Suc t..<T]"
  have len0: "length ?pr0 = T" by (simp add: row_predictions_def)
  have Pt: "?P t" using t bl by (simp add: row_predictions_def)
  have "[0..<T] = [0..<t] @ t # [Suc t..<T]"
    using t by (metis le_add1 less_imp_add_positive upt_add_eq_append upt_conv_Cons plus_nat.add_0)
  then have bt: "blank_times ?pr0 = ?before @ t # ?after"
    using Pt by (simp add: blank_times_def len0)
  define S1 where "S1 = fold row_step ?before (?pr0, sq)"
  define S2 where "S2 = row_step t S1"
  have fin: "row_run T sq = fold row_step ?after S2"
    by (simp add: row_run_def bt S1_def S2_def)
  have ok0: "row_ok C T (?pr0, sq)" by (rule row_predictions_ok[OF wf])
  have ok1: "row_ok C T S1"
    unfolding S1_def by (rule fold_row_step_ok[OF ok0]) (use t in auto)
  have nb: "t \<notin> set ?before" and na: "t \<notin> set ?after" by auto
  have col1: "snd S1 ! c ! t = sq ! c ! t" for c
    unfolding S1_def using fold_row_step_frame(2)[OF nb, of "(?pr0, sq)" c] by simp
  let ?prev = "py_nth (fst S1) (int t - 1)"
  have e2: "fst S2 ! t = ?prev" "snd S2 ! ?prev ! t = sq ! BLANK ! t"
    unfolding S2_def using row_step_effect[OF ok1 t] col1 by simp_all
  have f1: "fst (row_run T sq) ! t = ?prev"
    unfolding fin using fold_row_step_frame(1)[OF na, of S2] e2(1) by simp
  have f2: "snd (row_run T sq) ! ?prev ! t = sq ! BLANK ! t"
    unfolding fin using fold_row_step_frame(2)[OF na, of S2 ?prev] e2(2) by simp
  have len1: "length (fst S1) = T" and bd1: "\<forall>x \<in> set (fst S1). x < C"
    using ok1 by (simp_all add: row_ok_def)
  have "?prev \<in> set (fst S1)"
    using py_nth_prev_mem[of t "fst S1"] t len1 by simp
  then have pc: "?prev < C" using bd1 by blast
  have prev: "?prev = (if t = 0 then ?pr0 ! (T - 1) else fst (row_run T sq) ! (t - 1))"
  proof (cases "t = 0")
    case True
    then have "S1 = (?pr0, sq)" by (simp add: S1_def)
    moreover have "?pr0 \<noteq> []" using t len0 by auto
    ultimately show ?thesis
      using True py_nth_prev(2)[of ?pr0] len0 by simp
  next
    case False
    have nt: "t - 1 \<noteq> t" using False by simp
    have "t - 1 \<notin> set ?after" by auto
    then have "fst (row_run T sq) ! (t - 1) = fst S2 ! (t - 1)"
      unfolding fin by (rule fold_row_step_frame(1))
    also have "\<dots> = fst S1 ! (t - 1)"
      unfolding S2_def by (rule row_step_frame(1)[OF nt])
    also have "\<dots> = ?prev"
      using False py_nth_prev(1)[of t "fst S1"] by simp
    finally show ?thesis using False by simp
  qed
  show "fst (row_run T sq) ! t
           = (if t = 0 then row_predictions T sq ! (T - 1) else fst (row_run T sq) ! (t - 1))"
    using f1 prev by simp
  show "snd (row_run T sq) ! (fst (row_run T sq) ! t) ! t = sq ! BLANK ! t"
    using f1 f2 by simp
  show "fst (row_run T sq) ! t < C"
    using f1 pc by simp
qed

lemma row_old_prefix:
  assumes wf: "length sq = Suc BLANK" "\<forall>ch \<in> set sq. length ch = T"
    and first: "argmax (column sq 0) \<noteq> BLANK"
    and n: "0 < n" "n \<le> T"
  shows "fold backend_old_step [0..<n] (None, sq)
       = (Some (fst (fold row_step (filter (\<lambda>u. row_predictions T sq ! u = BLANK) [0..<n])
                       (row_predictions T sq, sq)) ! (n - 1)),
          snd (fold row_step (filter (\<lambda>u. row_predictions T sq ! u = BLANK) [0..<n])
                       (row_predictions T sq, sq)))"
  using n
proof (induction n)
  case 0
  then show ?case by simp
next
  case (Suc n)
  let ?pr0 = "row_predictions T sq"
  let ?P = "\<lambda>u. ?pr0 ! u = BLANK"
  have nT: "n < T" using Suc.prems by simp
  have pn: "?pr0 ! n = argmax (column sq n)"
    using nT by (simp add: row_predictions_def)
  show ?case
  proof (cases "n = 0")
    case True
    have "\<not> ?P 0" using first nT True by (simp add: row_predictions_def)
    then show ?thesis
      using True nT by (simp add: backend_old_step_def Let_def row_predictions_def)
  next
    case False
    let ?new = "fold row_step (filter ?P [0..<n]) (?pr0, sq)"
    have IH: "fold backend_old_step [0..<n] (None, sq) = (Some (fst ?new ! (n - 1)), snd ?new)"
      using Suc.IH False nT by simp
    have ok0: "row_ok (Suc BLANK) T (?pr0, sq)"
      by (rule row_predictions_ok[OF wf]) simp
    have ok: "row_ok (Suc BLANK) T ?new"
      by (rule fold_row_step_ok[OF ok0]) (use nT in auto)
    have len: "length (fst ?new) = T" "length (snd ?new) = Suc BLANK"
      using ok by (simp_all add: row_ok_def)
    have nn: "n \<notin> set (filter ?P [0..<n])" by simp
    have col: "column (snd ?new) n = column sq n"
      unfolding column_def
      using fold_row_step_frame(2)[OF nn, of "(?pr0, sq)"] len(2) wf(1)
      by (intro nth_equalityI) auto
    have prn: "fst ?new ! n = ?pr0 ! n"
      using fold_row_step_frame(1)[OF nn, of "(?pr0, sq)"] by simp
    have lc: "length (column sq n) - 1 = BLANK"
      using wf(1) by (simp add: column_def)
    have last: "py_nth (column (snd ?new) n) (- 1) = snd ?new ! BLANK ! n"
      using len(2) by (simp add: py_nth_def column_def)
    have prev: "py_nth (fst ?new) (int n - 1) = fst ?new ! (n - 1)"
      using False py_nth_prev(1)[of n "fst ?new"] by simp
    have old: "fold backend_old_step [0..<Suc n] (None, sq)
        = backend_old_step n (Some (fst ?new ! (n - 1)), snd ?new)"
      using IH by simp
    show ?thesis
    proof (cases "?P n")
      case True
      have "fold row_step (filter ?P [0..<Suc n]) (?pr0, sq) = row_step n ?new"
        using True by simp
      moreover have "row_step n ?new
          = ((fst ?new)[n := fst ?new ! (n - 1)],
             (snd ?new)[fst ?new ! (n - 1) := (snd ?new ! (fst ?new ! (n - 1)))
                [n := snd ?new ! BLANK ! n]])"
        using prev by (simp add: row_step_def split_beta)
      moreover have "backend_old_step n (Some (fst ?new ! (n - 1)), snd ?new)
          = (Some (fst ?new ! (n - 1)),
             (snd ?new)[fst ?new ! (n - 1) := (snd ?new ! (fst ?new ! (n - 1)))
                [n := snd ?new ! BLANK ! n]])"
        using True pn lc last by (simp add: backend_old_step_def Let_def col)
      ultimately show ?thesis
        using old len(1) nT by simp
    next
      case False
      have "fold row_step (filter ?P [0..<Suc n]) (?pr0, sq) = ?new"
        using False by simp
      moreover have "backend_old_step n (Some (fst ?new ! (n - 1)), snd ?new)
          = (Some (?pr0 ! n), snd ?new)"
        using False pn lc by (simp add: backend_old_step_def Let_def col)
      ultimately show ?thesis
        using old prn by simp
    qed
  qed
qed

lemma row_old_equiv:
  assumes wf: "length sq = Suc BLANK" "\<forall>ch \<in> set sq. length ch = T"
    and first: "0 < T \<longrightarrow> argmax (column sq 0) \<noteq> BLANK"
  shows "snd (row_run T sq) = backend_old_sequence T sq"
proof (cases "T = 0")
  case True
  then show ?thesis
    by (simp add: row_run_def backend_old_sequence_def blank_times_def row_predictions_def)
next
  case False
  then have "argmax (column sq 0) \<noteq> BLANK" using first by simp
  from row_old_prefix[OF wf this, of T] False
  show ?thesis
    by (simp add: row_run_def backend_old_sequence_def blank_times_def row_predictions_def)
qed

lemma row_run_nonblank:
  assumes "u < T" and "argmax (column sq u) \<noteq> BLANK"
  shows "fst (row_run T sq) ! u = argmax (column sq u)"
    and "snd (row_run T sq) ! c ! u = sq ! c ! u"
proof -
  have "u \<notin> set (blank_times (row_predictions T sq))"
    using assms by (simp add: blank_times_def row_predictions_def)
  from fold_row_step_frame[OF this, of "(row_predictions T sq, sq)"]
  show "fst (row_run T sq) ! u = argmax (column sq u)"
    and "snd (row_run T sq) ! c ! u = sq ! c ! u"
    using assms(1) by (simp_all add: row_run_def row_predictions_def)
qed

lemma blank_needs_channels:
  assumes "argmax (column sq t) = BLANK"
  shows "BLANK < length sq"
proof -
  have "column sq t \<noteq> []"
    using assms by (auto simp: argmax_def BLANK_def)
  from argmax_less[OF this] show ?thesis
    using assms by (simp add: column_def)
qed

lemma backend_rows:
  assumes "0 < C"
  shows "backend (L3 C T seqs)
       = Inr (L3 (C - 1) T (map (\<lambda>sq. butlast (snd (row_run T sq))) seqs))"
  using backend_state_rows[OF assms, of T seqs]
  by (simp add: drop_last_channel_def comp_def)

lemma dropped_channel_nth:
  assumes "length sq = C" and "p < C - 1"
  shows "butlast sq ! p = sq ! p"
  using assms by (simp add: nth_butlast)

text \<open>
  C2. When the arg-max class of a row at the first timestep is the blank index, the
  previous prediction is read at index \<open>-1\<close>, which is the arg-max class of the row's
  last timestep: that class becomes the prediction at \<open>t = 0\<close>, and its logit at
  \<open>t = 0\<close> is overwritten with the blank channel's logit at \<open>t = 0\<close>, in the logits
  as mutated and, where the class is not the dropped channel, in the result.
\<close>

theorem backend_first_timestep_blank:
  "wf_ltensor (L3 C T seqs) \<and> b < length seqs \<and> 0 < T
     \<and> argmax (column (seqs ! b) 0) = BLANK \<longrightarrow>
   (\<exists>P L out. backend_state (L3 C T seqs) = Inr (P, L)
      \<and> backend (L3 C T seqs) = Inr (L3 (C - 1) T out)
      \<and> py_nth (row_predictions T (seqs ! b)) (int 0 - 1) = argmax (column (seqs ! b) (T - 1))
      \<and> P ! b ! 0 = argmax (column (seqs ! b) (T - 1))
      \<and> L ! b ! argmax (column (seqs ! b) (T - 1)) ! 0 = seqs ! b ! BLANK ! 0
      \<and> (argmax (column (seqs ! b) (T - 1)) < C - 1 \<longrightarrow>
           out ! b ! argmax (column (seqs ! b) (T - 1)) ! 0 = seqs ! b ! BLANK ! 0))"
proof
  assume a: "wf_ltensor (L3 C T seqs) \<and> b < length seqs \<and> 0 < T
     \<and> argmax (column (seqs ! b) 0) = BLANK"
  let ?sq = "seqs ! b"
  let ?p = "argmax (column ?sq (T - 1))"
  have b: "b < length seqs" and T: "0 < T" and bl: "argmax (column ?sq 0) = BLANK"
    using a by blast+
  have mem: "?sq \<in> set seqs" using b by simp
  have wf: "length ?sq = C" "\<forall>ch \<in> set ?sq. length ch = T"
    using a mem by auto
  have C: "0 < C" using blank_needs_channels[OF bl] wf(1) by simp
  have pr: "row_predictions T ?sq ! (T - 1) = ?p"
    using T by (simp add: row_predictions_def)
  have rd: "py_nth (row_predictions T ?sq) (int 0 - 1) = ?p"
    using py_nth_prev(2)[of "row_predictions T ?sq"] T pr
    by (auto simp: row_predictions_def)
  have r1: "fst (row_run T ?sq) ! 0 = ?p"
    using row_run_blank(1)[OF wf C T bl] pr by simp
  have r2: "snd (row_run T ?sq) ! ?p ! 0 = ?sq ! BLANK ! 0"
    using row_run_blank(2)[OF wf C T bl] r1 by simp
  have len: "length (snd (row_run T ?sq)) = C"
    using row_run_ok[OF wf C] by (simp add: row_ok_def)
  have r3: "butlast (snd (row_run T ?sq)) ! ?p ! 0 = ?sq ! BLANK ! 0" if "?p < C - 1"
    using dropped_channel_nth[OF len that] r2 by simp
  show "\<exists>P L out. backend_state (L3 C T seqs) = Inr (P, L)
      \<and> backend (L3 C T seqs) = Inr (L3 (C - 1) T out)
      \<and> py_nth (row_predictions T (seqs ! b)) (int 0 - 1) = argmax (column (seqs ! b) (T - 1))
      \<and> P ! b ! 0 = argmax (column (seqs ! b) (T - 1))
      \<and> L ! b ! argmax (column (seqs ! b) (T - 1)) ! 0 = seqs ! b ! BLANK ! 0
      \<and> (argmax (column (seqs ! b) (T - 1)) < C - 1 \<longrightarrow>
           out ! b ! argmax (column (seqs ! b) (T - 1)) ! 0 = seqs ! b ! BLANK ! 0)"
    unfolding backend_state_rows[OF C] backend_rows[OF C]
    using b rd r1 r2 r3 by simp
qed

text \<open>
  C9, as the code has it. When the arg-max class of a row at a timestep \<open>t > 0\<close> is the
  blank index, the decoded predictions agree at \<open>t\<close> and \<open>t - 1\<close>, and the logits as
  mutated hold, in the channel of that prediction at \<open>t\<close>, the value the blank channel
  had at \<open>t\<close>. The prediction at \<open>t - 1\<close> is the arg-max class of that timestep unless
  that was blank too. The result shows the value whenever the channel is not the
  dropped last one.
\<close>

theorem backend_blank_timestep:
  "wf_ltensor (L3 C T seqs) \<and> b < length seqs \<and> 0 < t \<and> t < T
     \<and> argmax (column (seqs ! b) t) = BLANK \<longrightarrow>
   (\<exists>P L out. backend_state (L3 C T seqs) = Inr (P, L)
      \<and> backend (L3 C T seqs) = Inr (L3 (C - 1) T out)
      \<and> P ! b ! t = P ! b ! (t - 1)
      \<and> L ! b ! (P ! b ! (t - 1)) ! t = seqs ! b ! BLANK ! t
      \<and> (argmax (column (seqs ! b) (t - 1)) \<noteq> BLANK \<longrightarrow>
           P ! b ! (t - 1) = argmax (column (seqs ! b) (t - 1)))
      \<and> (P ! b ! (t - 1) < C - 1 \<longrightarrow>
           out ! b ! (P ! b ! (t - 1)) ! t = seqs ! b ! BLANK ! t))"
proof
  assume a: "wf_ltensor (L3 C T seqs) \<and> b < length seqs \<and> 0 < t \<and> t < T
     \<and> argmax (column (seqs ! b) t) = BLANK"
  let ?sq = "seqs ! b"
  let ?R = "row_run T ?sq"
  have b: "b < length seqs" and t: "0 < t" "t < T" and bl: "argmax (column ?sq t) = BLANK"
    using a by blast+
  have mem: "?sq \<in> set seqs" using b by simp
  have wf: "length ?sq = C" "\<forall>ch \<in> set ?sq. length ch = T"
    using a mem by auto
  have C: "0 < C" using blank_needs_channels[OF bl] wf(1) by simp
  have r1: "fst ?R ! t = fst ?R ! (t - 1)"
    using row_run_blank(1)[OF wf C t(2) bl] t(1) by simp
  have r2: "snd ?R ! (fst ?R ! (t - 1)) ! t = ?sq ! BLANK ! t"
    using row_run_blank(2)[OF wf C t(2) bl] r1 by simp
  have r4: "fst ?R ! (t - 1) = argmax (column ?sq (t - 1))"
    if "argmax (column ?sq (t - 1)) \<noteq> BLANK"
    using row_run_nonblank(1)[of "t - 1" T ?sq] that t by simp
  have len: "length (snd ?R) = C"
    using row_run_ok[OF wf C] by (simp add: row_ok_def)
  have r3: "butlast (snd ?R) ! (fst ?R ! (t - 1)) ! t = ?sq ! BLANK ! t"
    if "fst ?R ! (t - 1) < C - 1"
    using dropped_channel_nth[OF len that] r2 by simp
  show "\<exists>P L out. backend_state (L3 C T seqs) = Inr (P, L)
      \<and> backend (L3 C T seqs) = Inr (L3 (C - 1) T out)
      \<and> P ! b ! t = P ! b ! (t - 1)
      \<and> L ! b ! (P ! b ! (t - 1)) ! t = seqs ! b ! BLANK ! t
      \<and> (argmax (column (seqs ! b) (t - 1)) \<noteq> BLANK \<longrightarrow>
           P ! b ! (t - 1) = argmax (column (seqs ! b) (t - 1)))
      \<and> (P ! b ! (t - 1) < C - 1 \<longrightarrow>
           out ! b ! (P ! b ! (t - 1)) ! t = seqs ! b ! BLANK ! t)"
    unfolding backend_state_rows[OF C] backend_rows[OF C]
    using b r1 r2 r3 r4 by simp
qed

text \<open>
  C10. On a well-formed input with 41 channels in which no row has the blank index as
  arg-max class at the first timestep, \<open>_backend\<close> and \<open>_backend_old\<close> leave the same
  logits behind and return the same tensor, without the blank channel.
\<close>

theorem backend_old_equivalent:
  "wf_ltensor (L3 C T seqs) \<and> C = Suc BLANK
     \<and> (\<forall>s \<in> set seqs. 0 < T \<longrightarrow> argmax (column s 0) \<noteq> BLANK) \<longrightarrow>
   (\<exists>P L. backend_state (L3 C T seqs) = Inr (P, L)
        \<and> backend_old_state (L3 C T seqs) = Inr L
        \<and> backend (L3 C T seqs) = Inr (L3 BLANK T (map butlast L))
        \<and> backend_old (L3 C T seqs) = backend (L3 C T seqs))"
proof
  assume a: "wf_ltensor (L3 C T seqs) \<and> C = Suc BLANK
     \<and> (\<forall>s \<in> set seqs. 0 < T \<longrightarrow> argmax (column s 0) \<noteq> BLANK)"
  then have C: "C = Suc BLANK" and C0: "0 < C" by simp_all
  have row: "snd (row_run T s) = backend_old_sequence T s" if "s \<in> set seqs" for s
    by (rule row_old_equiv) (use a that in auto)
  then have rows: "map (\<lambda>sq. snd (row_run T sq)) seqs = map (backend_old_sequence T) seqs"
    by simp
  have old: "backend_old_state (L3 C T seqs) = Inr (map (backend_old_sequence T) seqs)"
    using C0 by simp
  show "\<exists>P L. backend_state (L3 C T seqs) = Inr (P, L)
        \<and> backend_old_state (L3 C T seqs) = Inr L
        \<and> backend (L3 C T seqs) = Inr (L3 BLANK T (map butlast L))
        \<and> backend_old (L3 C T seqs) = backend (L3 C T seqs)"
    unfolding backend_rows[OF C0] backend_state_rows[OF C0]
    using old rows C by (simp add: drop_last_channel_def comp_def)
qed

theorem backend_first_timestep_blank_witness:
  "wf_ltensor (L3 41 2 [(replicate 41 [0, 0])[7 := [0, 5], 40 := [3, 0]]]) \<and> (0::nat) < length [(replicate 41 [0, 0])[7 := [0, 5], 40 := [3, 0]]] \<and> (0::nat) < 2
   \<and> argmax (column ([(replicate 41 [0, 0])[7 := [0, 5], 40 := [3, 0]]] ! 0) 0) = BLANK
   \<and> argmax (column ([(replicate 41 [0, 0])[7 := [0, 5], 40 := [3, 0]]] ! 0) (2 - 1)) = 7
   \<and> (\<exists>P L out. backend_state (L3 41 2 [(replicate 41 [0, 0])[7 := [0, 5], 40 := [3, 0]]]) = Inr (P, L)
        \<and> backend (L3 41 2 [(replicate 41 [0, 0])[7 := [0, 5], 40 := [3, 0]]]) = Inr (L3 40 2 out)
        \<and> P ! 0 ! 0 = 7 \<and> L ! 0 ! 7 ! 0 = 3 \<and> out ! 0 ! 7 ! 0 = 3)"
proof -
  have h: "wf_ltensor (L3 41 2 [(replicate 41 [0, 0])[7 := [0, 5], 40 := [3, 0]]])" "argmax (column ([(replicate 41 [0, 0])[7 := [0, 5], 40 := [3, 0]]] ! 0) 0) = BLANK"
    "argmax (column ([(replicate 41 [0, 0])[7 := [0, 5], 40 := [3, 0]]] ! 0) (2 - 1)) = 7" "[(replicate 41 [0, 0])[7 := [0, 5], 40 := [3, 0]]] ! 0 ! BLANK ! 0 = (3 :: real)"
    by code_simp+
  have l: "(0::nat) < length [(replicate 41 [0, 0])[7 := [0, 5], 40 := [3, 0]]]" "(0::nat) < 2" by simp_all
  from backend_first_timestep_blank[of 41 2 "[(replicate 41 [0, 0])[7 := [0, 5], 40 := [3, 0]]]" 0] h(1,2) l
  obtain P L out where r: "backend_state (L3 41 2 [(replicate 41 [0, 0])[7 := [0, 5], 40 := [3, 0]]]) = Inr (P, L)"
    "backend (L3 41 2 [(replicate 41 [0, 0])[7 := [0, 5], 40 := [3, 0]]]) = Inr (L3 (41 - 1) 2 out)"
    "P ! 0 ! 0 = argmax (column ([(replicate 41 [0, 0])[7 := [0, 5], 40 := [3, 0]]] ! 0) (2 - 1))"
    "L ! 0 ! argmax (column ([(replicate 41 [0, 0])[7 := [0, 5], 40 := [3, 0]]] ! 0) (2 - 1)) ! 0 = [(replicate 41 [0, 0])[7 := [0, 5], 40 := [3, 0]]] ! 0 ! BLANK ! 0"
    "argmax (column ([(replicate 41 [0, 0])[7 := [0, 5], 40 := [3, 0]]] ! 0) (2 - 1)) < 41 - 1 \<longrightarrow>
       out ! 0 ! argmax (column ([(replicate 41 [0, 0])[7 := [0, 5], 40 := [3, 0]]] ! 0) (2 - 1)) ! 0 = [(replicate 41 [0, 0])[7 := [0, 5], 40 := [3, 0]]] ! 0 ! BLANK ! 0"
    by blast
  have "backend (L3 41 2 [(replicate 41 [0, 0])[7 := [0, 5], 40 := [3, 0]]]) = Inr (L3 40 2 out)" using r(2) by simp
  moreover have "P ! 0 ! 0 = 7" "L ! 0 ! 7 ! 0 = 3" "out ! 0 ! 7 ! 0 = 3"
    using r(3,4,5) unfolding h(3,4) by simp_all
  ultimately show ?thesis using h(1,2,3) l r(1) by blast
qed

theorem backend_blank_timestep_counterexample:
  "wf_ltensor (L3 41 2 [(replicate 41 [0, 0])[40 := [1, 1]]])
   \<and> argmax (column ([(replicate 41 [0, 0])[40 := [1, 1]]] ! 0) 1) = BLANK
   \<and> backend_state (L3 41 2 [(replicate 41 [0, 0])[40 := [1, 1]]]) = Inr ([[40, 40]], [(replicate 41 [0, 0])[40 := [1, 1]]])
   \<and> backend (L3 41 2 [(replicate 41 [0, 0])[40 := [1, 1]]]) = Inr (L3 40 2 [replicate 40 [0, 0]])
   \<and> \<not> [[40, 40 :: nat]] ! 0 ! (1 - 1) < length ([replicate 40 [0, 0 :: real]] ! 0)"
  by code_simp

theorem backend_blank_timestep_witness:
  "wf_ltensor (L3 41 3 [(replicate 41 [0, 0, 0])[5 := [9, 0, 0], 40 := [0, 7, 8]]]) \<and> (0::nat) < length [(replicate 41 [0, 0, 0])[5 := [9, 0, 0], 40 := [0, 7, 8]]] \<and> (0::nat) < 2 \<and> (2::nat) < 3
   \<and> argmax (column ([(replicate 41 [0, 0, 0])[5 := [9, 0, 0], 40 := [0, 7, 8]]] ! 0) 2) = BLANK \<and> argmax (column ([(replicate 41 [0, 0, 0])[5 := [9, 0, 0], 40 := [0, 7, 8]]] ! 0) (2 - 1)) = BLANK
   \<and> argmax (column ([(replicate 41 [0, 0, 0])[5 := [9, 0, 0], 40 := [0, 7, 8]]] ! 0) (1 - 1)) \<noteq> BLANK
   \<and> (\<exists>P L out. backend_state (L3 41 3 [(replicate 41 [0, 0, 0])[5 := [9, 0, 0], 40 := [0, 7, 8]]]) = Inr (P, L)
        \<and> backend (L3 41 3 [(replicate 41 [0, 0, 0])[5 := [9, 0, 0], 40 := [0, 7, 8]]]) = Inr (L3 40 3 out)
        \<and> P ! 0 ! 0 = 5 \<and> P ! 0 ! 1 = 5 \<and> P ! 0 ! 2 = 5
        \<and> L ! 0 ! 5 ! 1 = 7 \<and> L ! 0 ! 5 ! 2 = 8
        \<and> out ! 0 ! 5 ! 1 = 7 \<and> out ! 0 ! 5 ! 2 = 8)"
proof -
  have h: "wf_ltensor (L3 41 3 [(replicate 41 [0, 0, 0])[5 := [9, 0, 0], 40 := [0, 7, 8]]])" "argmax (column ([(replicate 41 [0, 0, 0])[5 := [9, 0, 0], 40 := [0, 7, 8]]] ! 0) 2) = BLANK"
    "argmax (column ([(replicate 41 [0, 0, 0])[5 := [9, 0, 0], 40 := [0, 7, 8]]] ! 0) 1) = BLANK" "argmax (column ([(replicate 41 [0, 0, 0])[5 := [9, 0, 0], 40 := [0, 7, 8]]] ! 0) 0) = 5"
    "[(replicate 41 [0, 0, 0])[5 := [9, 0, 0], 40 := [0, 7, 8]]] ! 0 ! BLANK ! 1 = (7 :: real)" "[(replicate 41 [0, 0, 0])[5 := [9, 0, 0], 40 := [0, 7, 8]]] ! 0 ! BLANK ! 2 = (8 :: real)" "(5::nat) \<noteq> BLANK"
    by code_simp+
  have l: "(0::nat) < length [(replicate 41 [0, 0, 0])[5 := [9, 0, 0], 40 := [0, 7, 8]]]" "(0::nat) < 1" "(0::nat) < 2" "(1::nat) < 3" "(2::nat) < 3"
    by simp_all
  from backend_blank_timestep[of 41 3 "[(replicate 41 [0, 0, 0])[5 := [9, 0, 0], 40 := [0, 7, 8]]]" 0 1] h(1,3) l
  obtain P L out where r: "backend_state (L3 41 3 [(replicate 41 [0, 0, 0])[5 := [9, 0, 0], 40 := [0, 7, 8]]]) = Inr (P, L)"
    "backend (L3 41 3 [(replicate 41 [0, 0, 0])[5 := [9, 0, 0], 40 := [0, 7, 8]]]) = Inr (L3 (41 - 1) 3 out)"
    "P ! 0 ! 1 = P ! 0 ! (1 - 1)"
    "L ! 0 ! (P ! 0 ! (1 - 1)) ! 1 = [(replicate 41 [0, 0, 0])[5 := [9, 0, 0], 40 := [0, 7, 8]]] ! 0 ! BLANK ! 1"
    "argmax (column ([(replicate 41 [0, 0, 0])[5 := [9, 0, 0], 40 := [0, 7, 8]]] ! 0) (1 - 1)) \<noteq> BLANK \<longrightarrow>
       P ! 0 ! (1 - 1) = argmax (column ([(replicate 41 [0, 0, 0])[5 := [9, 0, 0], 40 := [0, 7, 8]]] ! 0) (1 - 1))"
    "P ! 0 ! (1 - 1) < 41 - 1 \<longrightarrow> out ! 0 ! (P ! 0 ! (1 - 1)) ! 1 = [(replicate 41 [0, 0, 0])[5 := [9, 0, 0], 40 := [0, 7, 8]]] ! 0 ! BLANK ! 1"
    by blast
  from backend_blank_timestep[of 41 3 "[(replicate 41 [0, 0, 0])[5 := [9, 0, 0], 40 := [0, 7, 8]]]" 0 2] h(1,2) l
  obtain P' L' out' where r': "backend_state (L3 41 3 [(replicate 41 [0, 0, 0])[5 := [9, 0, 0], 40 := [0, 7, 8]]]) = Inr (P', L')"
    "backend (L3 41 3 [(replicate 41 [0, 0, 0])[5 := [9, 0, 0], 40 := [0, 7, 8]]]) = Inr (L3 (41 - 1) 3 out')"
    "P' ! 0 ! 2 = P' ! 0 ! (2 - 1)"
    "L' ! 0 ! (P' ! 0 ! (2 - 1)) ! 2 = [(replicate 41 [0, 0, 0])[5 := [9, 0, 0], 40 := [0, 7, 8]]] ! 0 ! BLANK ! 2"
    "P' ! 0 ! (2 - 1) < 41 - 1 \<longrightarrow> out' ! 0 ! (P' ! 0 ! (2 - 1)) ! 2 = [(replicate 41 [0, 0, 0])[5 := [9, 0, 0], 40 := [0, 7, 8]]] ! 0 ! BLANK ! 2"
    by blast
  have same: "P' = P" "L' = L" "out' = out"
    using r(1,2) r'(1,2) by simp_all
  have p0: "P ! 0 ! 0 = 5" using r(5) h(4,7) by simp
  then have p1: "P ! 0 ! 1 = 5" using r(3) by simp
  then have p2: "P ! 0 ! 2 = 5" using r'(3) same by simp
  have v1: "L ! 0 ! 5 ! 1 = 7" "out ! 0 ! 5 ! 1 = 7"
    using r(4,6) p0 h(5) by simp_all
  have v2: "L ! 0 ! 5 ! 2 = 8" "out ! 0 ! 5 ! 2 = 8"
    using r'(4,5) p1 h(6) same by simp_all
  have b: "backend (L3 41 3 [(replicate 41 [0, 0, 0])[5 := [9, 0, 0], 40 := [0, 7, 8]]]) = Inr (L3 40 3 out)" using r(2) by simp
  have n: "argmax (column ([(replicate 41 [0, 0, 0])[5 := [9, 0, 0], 40 := [0, 7, 8]]] ! 0) (2 - 1)) = BLANK"
    "argmax (column ([(replicate 41 [0, 0, 0])[5 := [9, 0, 0], 40 := [0, 7, 8]]] ! 0) (1 - 1)) \<noteq> BLANK"
    using h(3,4,7) by simp_all
  show ?thesis
    using h(1,2) n l r(1) b p0 p1 p2 v1 v2 by blast
qed

theorem backend_old_equivalent_witness:
  "wf_ltensor (L3 41 4 [(replicate 41 [0, 0, 0, 0])[3 := [9, 0, 0, 0], 5 := [0, 0, 0, 9], 40 := [0, 7, 8, 0]]]) \<and> (41::nat) = Suc BLANK
   \<and> argmax (column ([(replicate 41 [0, 0, 0, 0])[3 := [9, 0, 0, 0], 5 := [0, 0, 0, 9], 40 := [0, 7, 8, 0]]] ! 0) 0) \<noteq> BLANK
   \<and> argmax (column ([(replicate 41 [0, 0, 0, 0])[3 := [9, 0, 0, 0], 5 := [0, 0, 0, 9], 40 := [0, 7, 8, 0]]] ! 0) 1) = BLANK \<and> argmax (column ([(replicate 41 [0, 0, 0, 0])[3 := [9, 0, 0, 0], 5 := [0, 0, 0, 9], 40 := [0, 7, 8, 0]]] ! 0) 2) = BLANK
   \<and> backend (L3 41 4 [(replicate 41 [0, 0, 0, 0])[3 := [9, 0, 0, 0], 5 := [0, 0, 0, 9], 40 := [0, 7, 8, 0]]])
       = Inr (L3 40 4 [(replicate 40 [0, 0, 0, 0])[3 := [9, 7, 8, 0], 5 := [0, 0, 0, 9]]])
   \<and> (\<exists>P L. backend_state (L3 41 4 [(replicate 41 [0, 0, 0, 0])[3 := [9, 0, 0, 0], 5 := [0, 0, 0, 9], 40 := [0, 7, 8, 0]]]) = Inr (P, L)
        \<and> backend_old_state (L3 41 4 [(replicate 41 [0, 0, 0, 0])[3 := [9, 0, 0, 0], 5 := [0, 0, 0, 9], 40 := [0, 7, 8, 0]]]) = Inr L
        \<and> backend (L3 41 4 [(replicate 41 [0, 0, 0, 0])[3 := [9, 0, 0, 0], 5 := [0, 0, 0, 9], 40 := [0, 7, 8, 0]]]) = Inr (L3 BLANK 4 (map butlast L))
        \<and> backend_old (L3 41 4 [(replicate 41 [0, 0, 0, 0])[3 := [9, 0, 0, 0], 5 := [0, 0, 0, 9], 40 := [0, 7, 8, 0]]]) = backend (L3 41 4 [(replicate 41 [0, 0, 0, 0])[3 := [9, 0, 0, 0], 5 := [0, 0, 0, 9], 40 := [0, 7, 8, 0]]]))"
proof -
  have h: "wf_ltensor (L3 41 4 [(replicate 41 [0, 0, 0, 0])[3 := [9, 0, 0, 0], 5 := [0, 0, 0, 9], 40 := [0, 7, 8, 0]]])" "(41::nat) = Suc BLANK"
    "argmax (column ([(replicate 41 [0, 0, 0, 0])[3 := [9, 0, 0, 0], 5 := [0, 0, 0, 9], 40 := [0, 7, 8, 0]]] ! 0) 0) \<noteq> BLANK"
    "argmax (column ([(replicate 41 [0, 0, 0, 0])[3 := [9, 0, 0, 0], 5 := [0, 0, 0, 9], 40 := [0, 7, 8, 0]]] ! 0) 1) = BLANK" "argmax (column ([(replicate 41 [0, 0, 0, 0])[3 := [9, 0, 0, 0], 5 := [0, 0, 0, 9], 40 := [0, 7, 8, 0]]] ! 0) 2) = BLANK"
    "backend (L3 41 4 [(replicate 41 [0, 0, 0, 0])[3 := [9, 0, 0, 0], 5 := [0, 0, 0, 9], 40 := [0, 7, 8, 0]]])
       = Inr (L3 40 4 [(replicate 40 [0, 0, 0, 0])[3 := [9, 7, 8, 0], 5 := [0, 0, 0, 9]]])"
    by code_simp+
  have first: "\<forall>s \<in> set [(replicate 41 [0, 0, 0, 0])[3 := [9, 0, 0, 0], 5 := [0, 0, 0, 9], 40 := [0, 7, 8, 0]]]. (0::nat) < 4 \<longrightarrow> argmax (column s 0) \<noteq> BLANK"
    using h(3) by simp
  from backend_old_equivalent[of 41 4 "[(replicate 41 [0, 0, 0, 0])[3 := [9, 0, 0, 0], 5 := [0, 0, 0, 9], 40 := [0, 7, 8, 0]]]"] h(1,2) first
  have "\<exists>P L. backend_state (L3 41 4 [(replicate 41 [0, 0, 0, 0])[3 := [9, 0, 0, 0], 5 := [0, 0, 0, 9], 40 := [0, 7, 8, 0]]]) = Inr (P, L)
        \<and> backend_old_state (L3 41 4 [(replicate 41 [0, 0, 0, 0])[3 := [9, 0, 0, 0], 5 := [0, 0, 0, 9], 40 := [0, 7, 8, 0]]]) = Inr L
        \<and> backend (L3 41 4 [(replicate 41 [0, 0, 0, 0])[3 := [9, 0, 0, 0], 5 := [0, 0, 0, 9], 40 := [0, 7, 8, 0]]]) = Inr (L3 BLANK 4 (map butlast L))
        \<and> backend_old (L3 41 4 [(replicate 41 [0, 0, 0, 0])[3 := [9, 0, 0, 0], 5 := [0, 0, 0, 9], 40 := [0, 7, 8, 0]]]) = backend (L3 41 4 [(replicate 41 [0, 0, 0, 0])[3 := [9, 0, 0, 0], 5 := [0, 0, 0, 9], 40 := [0, 7, 8, 0]]])"
    by blast
  with h show ?thesis by blast
qed

end
